theory Spec2Isabelle
  imports Main "HOL-Library.List_Lexorder" "HOL-Library.Log_Nat"
begin

section \<open>Values of the Python runtime\<close>

text \<open>
  A Python \<open>str\<close> is a sequence of Unicode code points, so it is modelled as a list of
  naturals; the order of \<open>HOL-Library.List_Lexorder\<close> on such lists is Python's
  comparison of strings (code point by code point, a proper prefix being smaller).
  \<open>str\<close> turns a literal of the source into that representation.
\<close>

type_synonym pystr = "nat list"

definition str :: "string \<Rightarrow> pystr" where
  "str s = map of_char s"

datatype error =
    ZeroDivisionError | TypeError | ValueError | KeyError | OverflowError
  | FileNotFoundError | ParserError

text \<open>\<open>ord\<close> wants a string of length one; \<open>chr\<close> wants a code point below \<open>0x110000\<close>.\<close>

definition ord_py :: "pystr \<Rightarrow> error + int" where
  "ord_py s = (case s of [c] \<Rightarrow> Inr (int c) | _ \<Rightarrow> Inl TypeError)"

definition chr_py :: "int \<Rightarrow> error + pystr" where
  "chr_py i = (if 0 \<le> i \<and> i < 1114112 then Inr [nat i] else Inl ValueError)"

text \<open>The builtin \<open>max\<close> keeps the first greatest item and raises on an empty iterable.\<close>

definition max_py :: "pystr list \<Rightarrow> error + pystr" where
  "max_py xs =
     (case xs of [] \<Rightarrow> Inl ValueError
      | y # ys \<Rightarrow> Inr (fold (\<lambda>x m. if m < x then x else m) ys y))"

subsection \<open>Binary64 floating point\<close>

text \<open>
  A \<open>float64\<close> is a rational (the exact value of a finite double, the two zeros
  identified), an infinity or NaN. \<open>rnd\<close> rounds a rational to the nearest double, ties
  to even: 53 significant bits, exponents from \<open>-1022\<close> (below that the spacing stays
  \<open>2^-1074\<close>) to 1023. The result is an infinity when it would reach \<open>2^1024\<close>: the
  exponent is above 1023, or it is 1023 and the significand rounds up to \<open>2^53\<close>.
\<close>

datatype float64 = Num rat | PosInf | NegInf | NaN

definition round_half_even :: "rat \<Rightarrow> int" where
  "round_half_even q =
     (let f = \<lfloor>q\<rfloor>; d = q - of_int f
      in if d < 1 / 2 then f else if 1 / 2 < d then f + 1 else if even f then f else f + 1)"

definition ilog2 :: "rat \<Rightarrow> int" where
  "ilog2 q =
     (case quotient_of q of (a, b) \<Rightarrow>
        (let e = bitlen a - bitlen b in if power_int 2 e \<le> q then e else e - 1))"

definition rnd :: "rat \<Rightarrow> float64" where
  "rnd q =
     (if q = 0 then Num 0
      else let e = max (ilog2 \<bar>q\<bar>) (- 1022);
               ulp = power_int 2 (e - 52);
               m = round_half_even (\<bar>q\<bar> / ulp)
           in if 1023 < e \<or> (e = 1023 \<and> 9007199254740992 \<le> m)
              then (if 0 < q then PosInf else NegInf)
              else Num (if 0 < q then of_int m * ulp else - (of_int m * ulp)))"

fun fle :: "float64 \<Rightarrow> float64 \<Rightarrow> bool" where
  "fle NaN _ = False"
| "fle _ NaN = False"
| "fle NegInf _ = True"
| "fle _ PosInf = True"
| "fle (Num a) (Num b) = (a \<le> b)"
| "fle _ _ = False"

section \<open>Data model\<close>

text \<open>
  The tables that \<open>pd.read_csv\<close> returns, with the default index \<open>0, 1, 2, ...\<close>: a row's
  index is its position in the list. The columns \<open>Time [s]\<close>, \<open>Distance [m]\<close>, \<open>x [m]\<close> and
  \<open>y[m]\<close> hold floats, \<open>ContactID\<close> and \<open>TagID\<close> hold strings.
\<close>

record tag_row =
  Time_s :: float64
  ContactID :: pystr
  Distance_m :: float64

record pos_row =
  pos_Time_s :: float64
  TagID :: pystr
  x_m :: float64
  y_m :: float64

type_synonym tag_df = "tag_row list"
type_synonym pos_df = "pos_row list"

text \<open>What the program prints, one constructor per \<open>print\<close> of the source.\<close>

datatype line =
    ContactIDs "pystr list" "pystr list"
  | MismatchedDistances
  | MismatchTable "(float64 \<times> float64 \<times> float64) list"
  | AllDistancesMatch
  | UninterruptedSessions nat
  | MeasurementError
  | TotalContactDuration float64

text \<open>\<open>Series.unique()\<close>: the distinct values in order of first appearance.\<close>

fun unique :: "'a list \<Rightarrow> 'a list" where
  "unique [] = []"
| "unique (v # vs) = v # unique (filter (\<lambda>w. w \<noteq> v) vs)"

section \<open>The tag-ID corrector\<close>

text \<open>Line 74: \<open>chr(ord(max(tag_ids)) + 1)\<close>.\<close>

definition next_available_letter :: "pystr list \<Rightarrow> error + pystr" where
  "next_available_letter tag_ids =
     (case max_py tag_ids of Inl e \<Rightarrow> Inl e
      | Inr m \<Rightarrow> (case ord_py m of Inl e \<Rightarrow> Inl e | Inr c \<Rightarrow> chr_py (c + 1)))"

text \<open>Line 75: \<open>position_df.loc[position_df.index % 2 == 1, 'TagID'] = letter\<close>.\<close>

definition relabel_odd :: "pystr \<Rightarrow> pos_df \<Rightarrow> pos_df" where
  "relabel_odd letter position_df =
     map (\<lambda>(i, r). if i mod 2 = 1 then r\<lparr>TagID := letter\<rparr> else r)
       (enumerate 0 position_df)"

text \<open>
  \<open>correct_tag_ids\<close> returns what it printed and either the exception it raised or the
  data frame it returns. The data frame is the caller's object, changed in place.
\<close>

definition correct_tag_ids :: "pos_df \<Rightarrow> line list \<times> (error + pos_df)" where
  "correct_tag_ids position_df =
     (let unique_tags = unique (map TagID position_df)
      in if length unique_tags = 0 then ([], Inl ZeroDivisionError)
         else if length unique_tags \<noteq> length position_df div length unique_tags then
           ([MeasurementError],
            case next_available_letter (unique (map TagID position_df)) of
              Inl e \<Rightarrow> Inl e
            | Inr letter \<Rightarrow> Inr (relabel_odd letter position_df))
         else ([], Inr position_df))"

text \<open>Position rows used as concrete inputs below.\<close>

definition pos :: "rat \<Rightarrow> string \<Rightarrow> pos_row" where
  "pos t tag = \<lparr>pos_Time_s = Num t, TagID = str tag, x_m = Num 1, y_m = Num 2\<rparr>"

definition two_tags_three_times :: pos_df where
  "two_tags_three_times =
     [pos 0 ''A'', pos 0 ''B'', pos (1 / 10) ''A'', pos (1 / 10) ''B'',
      pos (1 / 5) ''A'', pos (1 / 5) ''B'']"

definition two_tags_two_times :: pos_df where
  "two_tags_two_times = [pos 0 ''A'', pos 0 ''B'', pos (1 / 10) ''A'', pos (1 / 10) ''B'']"

definition only_A_rows :: pos_df where
  "only_A_rows = [pos 0 ''A'', pos 0 ''A'', pos (1 / 10) ''A'', pos (1 / 10) ''A'']"

definition double_letter_rows :: pos_df where
  "double_letter_rows = [pos 0 ''AA'', pos 0 ''AA'']"

definition long_name_rows :: pos_df where
  "long_name_rows = [pos 0 ''AB'', pos 0 ''AB'', pos (1 / 10) ''AB'']"

section \<open>The distance verifier\<close>

text \<open>
  The arithmetic of \<open>np.isclose\<close>: every operation on finite values is the exact one
  followed by \<open>rnd\<close>; infinities and NaN follow IEEE 754.
\<close>

fun fneg :: "float64 \<Rightarrow> float64" where
  "fneg (Num a) = Num (- a)"
| "fneg PosInf = NegInf"
| "fneg NegInf = PosInf"
| "fneg NaN = NaN"

fun fabs :: "float64 \<Rightarrow> float64" where
  "fabs (Num a) = Num \<bar>a\<bar>"
| "fabs PosInf = PosInf"
| "fabs NegInf = PosInf"
| "fabs NaN = NaN"

fun fadd :: "float64 \<Rightarrow> float64 \<Rightarrow> float64" where
  "fadd (Num a) (Num b) = rnd (a + b)"
| "fadd NaN _ = NaN"
| "fadd _ NaN = NaN"
| "fadd PosInf NegInf = NaN"
| "fadd NegInf PosInf = NaN"
| "fadd PosInf _ = PosInf"
| "fadd NegInf _ = NegInf"
| "fadd _ PosInf = PosInf"
| "fadd _ NegInf = NegInf"

definition fsub :: "float64 \<Rightarrow> float64 \<Rightarrow> float64" where
  "fsub a b = fadd a (fneg b)"

fun fmul :: "float64 \<Rightarrow> float64 \<Rightarrow> float64" where
  "fmul (Num a) (Num b) = rnd (a * b)"
| "fmul NaN _ = NaN"
| "fmul _ NaN = NaN"
| "fmul (Num a) b =
     (if a = 0 then NaN else if 0 < a then b else fneg b)"
| "fmul a (Num b) =
     (if b = 0 then NaN else if 0 < b then a else fneg a)"
| "fmul PosInf b = b"
| "fmul NegInf b = fneg b"

fun isfinite :: "float64 \<Rightarrow> bool" where
  "isfinite (Num _) = True"
| "isfinite _ = False"

text \<open>\<open>==\<close> on floats: NaN equals nothing, itself included.\<close>

definition feq :: "float64 \<Rightarrow> float64 \<Rightarrow> bool" where
  "feq a b = (a \<noteq> NaN \<and> a = b)"

text \<open>The defaults of \<open>np.isclose\<close>, as the doubles the literals denote.\<close>

definition rtol :: float64 where
  "rtol = rnd (1 / 100000)"

definition atol :: float64 where
  "atol = rnd (1 / 100000000)"

text \<open>
  \<open>np.isclose(a, b)\<close> with \<open>equal_nan=False\<close>: on finite values
  \<open>abs(a - b) <= atol + rtol * abs(b)\<close>, otherwise equality (infinities of the same sign
  are close, NaN is close to nothing).
\<close>

definition isclose :: "float64 \<Rightarrow> float64 \<Rightarrow> bool" where
  "isclose a b =
     (if isfinite a \<and> isfinite b
      then fle (fabs (fsub a b)) (fadd atol (fmul rtol (fabs b)))
      else feq a b)"

text \<open>
  \<open>pd.merge(left, right, on='Time [s]')\<close>: the inner join. Every left row, in order, is
  paired with every right row of the same key, in order; a key that occurs several times
  on both sides gives every combination. Keys are compared as pandas does for a join: a
  missing value (NaN) matches a missing value.
\<close>

definition merge_on_time ::
    "('a \<Rightarrow> float64) \<Rightarrow> ('b \<Rightarrow> float64) \<Rightarrow> 'a list \<Rightarrow> 'b list \<Rightarrow> ('a \<times> 'b) list" where
  "merge_on_time key_l key_r left right =
     concat (map (\<lambda>l. map (Pair l) (filter (\<lambda>r. key_r r = key_l l) right)) left)"

text \<open>
  \<open>pd.read_csv\<close> gives the columns of a file without data rows the dtype \<open>object\<close>, and a
  column of numbers the dtype \<open>float64\<close>; selecting rows keeps the dtype. So a table has
  columns of dtype \<open>object\<close> exactly when it has no rows.
\<close>

definition object_columns :: "'a list \<Rightarrow> bool" where
  "object_columns df \<longleftrightarrow> df = []"

text \<open>
  On columns of dtype \<open>object\<close> the libraries raise. Two cases depend on the release that
  is installed, and are the parameters here, \<open>None\<close> standing for no exception: what
  \<open>np.isclose\<close> does when only its first argument has dtype \<open>object\<close> (numpy 1 applies
  \<open>isfinite\<close> to both arguments and raises \<open>TypeError\<close>), and what \<open>pd.merge\<close> does on key
  columns of dtype \<open>object\<close> and \<open>float64\<close> that both have no element.
\<close>

record libraries =
  isclose_object_left :: "error option"
  merge_object_float :: "error option"

text \<open>
  Line 44: in every release \<open>np.isclose\<close> applies \<open>isfinite\<close> to its second argument, which
  raises \<open>TypeError\<close> on the dtype \<open>object\<close>. The join of line 43 does not raise: its keys
  have the same dtype, or one side has no rows and the dtypes are not compared.
\<close>

definition isclose_raises :: "libraries \<Rightarrow> tag_df \<Rightarrow> tag_df \<Rightarrow> error option" where
  "isclose_raises libs tag_a_df tag_b_df =
     (if object_columns tag_b_df then Some TypeError
      else if object_columns tag_a_df then isclose_object_left libs
      else None)"

text \<open>Lines 43 to 45: the joined rows whose two distances are not close.\<close>

definition mismatched_distances ::
    "libraries \<Rightarrow> tag_df \<Rightarrow> tag_df \<Rightarrow> error + (tag_row \<times> tag_row) list" where
  "mismatched_distances libs tag_a_df tag_b_df =
     (case isclose_raises libs tag_a_df tag_b_df of
        Some e \<Rightarrow> Inl e
      | None \<Rightarrow>
          Inr (filter (\<lambda>(a, b). \<not> isclose (Distance_m a) (Distance_m b))
                 (merge_on_time Time_s Time_s tag_a_df tag_b_df)))"

text \<open>Line 53: both distances of a joined row are at most 1.5.\<close>

definition within_1_5m :: "(tag_row \<times> tag_row) list \<Rightarrow> bool list" where
  "within_1_5m merged_tags =
     map (\<lambda>(a, b). fle (Distance_m a) (Num (3 / 2)) \<and> fle (Distance_m b) (Num (3 / 2)))
       merged_tags"

text \<open>
  Lines 54 to 63: the loop over the flags, with its two variables
  \<open>(uninterrupted_periods, in_contact)\<close> as the state.
\<close>

fun uninterrupted_loop :: "bool list \<Rightarrow> nat \<times> bool \<Rightarrow> nat \<times> bool" where
  "uninterrupted_loop [] s = s"
| "uninterrupted_loop (w # ws) (uninterrupted_periods, in_contact) =
     uninterrupted_loop ws
       (if w then
          (if \<not> in_contact then (uninterrupted_periods + 1, True)
           else (uninterrupted_periods, in_contact))
        else (uninterrupted_periods, False))"

definition uninterrupted_periods :: "bool list \<Rightarrow> nat" where
  "uninterrupted_periods ws = fst (uninterrupted_loop ws (0, False))"

text \<open>
  \<open>verify_distances\<close> returns what it printed and the exception it raised, if any; nothing
  is printed before line 44.
\<close>

definition verify_distances ::
    "libraries \<Rightarrow> tag_df \<Rightarrow> tag_df \<Rightarrow> line list \<times> (error + unit)" where
  "verify_distances libs tag_a_df tag_b_df =
     (case mismatched_distances libs tag_a_df tag_b_df of
        Inl e \<Rightarrow> ([], Inl e)
      | Inr mismatched \<Rightarrow>
          (let merged_tags = merge_on_time Time_s Time_s tag_a_df tag_b_df
           in ((if mismatched \<noteq> []
                then [MismatchedDistances,
                      MismatchTable
                        (map (\<lambda>(a, b). (Time_s a, Distance_m a, Distance_m b)) mismatched)]
                else [AllDistancesMatch])
               @ [UninterruptedSessions (uninterrupted_periods (within_1_5m merged_tags))],
               Inr ())))"

text \<open>
  The count the specification describes: the rows that are within the threshold and are
  the first row or come right after a row that is not.
\<close>

definition run_starts :: "bool list \<Rightarrow> nat" where
  "run_starts ws =
     length (filter (\<lambda>i. ws ! i \<and> (i = 0 \<or> \<not> ws ! (i - 1))) [0..<length ws])"

text \<open>
  A maximal run of rows within the threshold, from row \<open>i\<close> to row \<open>j\<close>: all rows of it are
  within the threshold, and it can be extended on neither side.
\<close>

definition maximal_run :: "bool list \<Rightarrow> nat \<Rightarrow> nat \<Rightarrow> bool" where
  "maximal_run ws i j \<longleftrightarrow>
     i \<le> j \<and> j < length ws \<and> (\<forall>k\<in>{i..j}. ws ! k)
     \<and> (i = 0 \<or> \<not> ws ! (i - 1)) \<and> (j + 1 = length ws \<or> \<not> ws ! (j + 1))"

definition maximal_runs :: "bool list \<Rightarrow> (nat \<times> nat) set" where
  "maximal_runs ws =
     Set.filter (\<lambda>(i, j). maximal_run ws i j) ({..<length ws} \<times> {..<length ws})"

text \<open>Tag readings used as concrete inputs below.\<close>

definition reading :: "rat \<Rightarrow> string \<Rightarrow> rat \<Rightarrow> tag_row" where
  "reading t contact d = \<lparr>Time_s = Num t, ContactID = str contact, Distance_m = Num d\<rparr>"

definition synthetic_tag_a :: tag_df where
  "synthetic_tag_a = [reading 0 ''B'' 1, reading (1 / 10) ''B'' (6 / 5), reading (1 / 5) ''B'' 2]"

definition synthetic_tag_b :: tag_df where
  "synthetic_tag_b = [reading 0 ''A'' 1, reading (1 / 10) ''A'' (6 / 5), reading (1 / 5) ''A'' 2]"

definition repeated_time_readings :: tag_df where
  "repeated_time_readings = [reading 0 ''B'' 1, reading 0 ''C'' (6 / 5)]"

section \<open>The loader\<close>

text \<open>
  \<open>str.lower()\<close> works code point by code point: an ASCII capital becomes its small
  letter, any other ASCII character is kept. Beyond ASCII the result comes from the
  Unicode tables of the Python runtime, which are the parameter \<open>unicode_lower\<close> here.
\<close>

definition lower_py :: "(nat \<Rightarrow> pystr) \<Rightarrow> pystr \<Rightarrow> pystr" where
  "lower_py unicode_lower s =
     concat (map (\<lambda>c. if 65 \<le> c \<and> c \<le> 90 then [c + 32]
                       else if c < 128 then [c] else unicode_lower c) s)"

text \<open>
  Lines 15 to 25: the letters of the tag with index \<open>person\<close>, \<open>letter1\<close> in the first
  branch and \<open>letters12\<close> in the second, then the file name and the dictionary key made
  from them.
\<close>

definition tag_letters :: "int \<Rightarrow> error + pystr" where
  "tag_letters person =
     (if person \<le> 25 then chr_py (person + 65)
      else let iteration = person div 26
           in (case chr_py (iteration + 64) of Inl e \<Rightarrow> Inl e
               | Inr first \<Rightarrow>
                   (case chr_py (person mod 26 + 65) of Inl e \<Rightarrow> Inl e
                    | Inr second \<Rightarrow> Inr (first @ second))))"

definition tagfilename :: "int \<Rightarrow> error + pystr" where
  "tagfilename person =
     (case tag_letters person of Inl e \<Rightarrow> Inl e
      | Inr letters \<Rightarrow> Inr (str ''Tag'' @ letters @ str ''.csv''))"

definition tag_var :: "(nat \<Rightarrow> pystr) \<Rightarrow> int \<Rightarrow> error + pystr" where
  "tag_var unicode_lower person =
     (case tag_letters person of Inl e \<Rightarrow> Inl e
      | Inr letters \<Rightarrow> Inr (str ''tag_'' @ lower_py unicode_lower letters))"

text \<open>The loop of line 14 over \<open>range(numtags)\<close>, filling the dictionary \<open>data_frames\<close>.\<close>

fun tag_names_loop ::
    "(nat \<Rightarrow> pystr) \<Rightarrow> int list \<Rightarrow> (pystr \<rightharpoonup> pystr) \<Rightarrow> error + (pystr \<rightharpoonup> pystr)" where
  "tag_names_loop unicode_lower [] data_frames = Inr data_frames"
| "tag_names_loop unicode_lower (person # persons) data_frames =
     (case tagfilename person of Inl e \<Rightarrow> Inl e
      | Inr file \<Rightarrow>
          (case tag_var unicode_lower person of Inl e \<Rightarrow> Inl e
           | Inr var \<Rightarrow> tag_names_loop unicode_lower persons (data_frames(var \<mapsto> file))))"

text \<open>
  A CSV file holds a table of tag readings or a table of positions; the file system is a
  function from paths to what \<open>pd.read_csv\<close> gives for them, an error when the file is
  missing or malformed.
\<close>

datatype table = TagTable tag_df | PosTable pos_df

definition read_csv_files ::
    "(nat \<Rightarrow> pystr) \<Rightarrow> (pystr \<Rightarrow> error + table) \<Rightarrow> pystr \<Rightarrow> int
      \<Rightarrow> error + (table \<times> table \<times> table)" where
  "read_csv_files unicode_lower read_csv position numtags =
     (case tag_names_loop unicode_lower (map int [0..<nat numtags]) Map.empty of
        Inl e \<Rightarrow> Inl e
      | Inr data_frames \<Rightarrow>
          (case data_frames (str ''tag_a'') of None \<Rightarrow> Inl KeyError
           | Some file_a \<Rightarrow>
               (case read_csv file_a of Inl e \<Rightarrow> Inl e
                | Inr tag_a_df \<Rightarrow>
                    (case data_frames (str ''tag_b'') of None \<Rightarrow> Inl KeyError
                     | Some file_b \<Rightarrow>
                         (case read_csv file_b of Inl e \<Rightarrow> Inl e
                          | Inr tag_b_df \<Rightarrow>
                              (case read_csv position of Inl e \<Rightarrow> Inl e
                               | Inr position_df \<Rightarrow>
                                   Inr (tag_a_df, tag_b_df, position_df)))))))"

text \<open>
  The naming the specification describes, spreadsheet columns: A to Z, then AA to AZ, BA
  and so on to ZZ, then AAA.
\<close>

function spreadsheet_column :: "nat \<Rightarrow> pystr" where
  "spreadsheet_column n =
     (if n < 26 then [65 + n]
      else spreadsheet_column (n div 26 - 1) @ [65 + n mod 26])"
  by pat_completeness auto
termination
  by (relation "measure id") auto

text \<open>What the three reads of lines 28 to 30 give when the tag count plays no role.\<close>

definition read_three ::
    "(pystr \<Rightarrow> error + table) \<Rightarrow> pystr \<Rightarrow> error + (table \<times> table \<times> table)" where
  "read_three read_csv position =
     (case read_csv (str ''TagA.csv'') of Inl e \<Rightarrow> Inl e
      | Inr tag_a_df \<Rightarrow>
          (case read_csv (str ''TagB.csv'') of Inl e \<Rightarrow> Inl e
           | Inr tag_b_df \<Rightarrow>
               (case read_csv position of Inl e \<Rightarrow> Inl e
                | Inr position_df \<Rightarrow> Inr (tag_a_df, tag_b_df, position_df))))"

section \<open>The analysis\<close>

text \<open>Lines 36 to 39; a table without the column \<open>ContactID\<close> raises \<open>KeyError\<close>.\<close>

definition check_tag_connections :: "table \<Rightarrow> table \<Rightarrow> line list \<times> (error + unit)" where
  "check_tag_connections tag_a_df tag_b_df =
     (case tag_a_df of PosTable _ \<Rightarrow> ([], Inl KeyError)
      | TagTable a \<Rightarrow>
          (case tag_b_df of PosTable _ \<Rightarrow> ([], Inl KeyError)
           | TagTable b \<Rightarrow>
               ([ContactIDs (unique (map ContactID a)) (unique (map ContactID b))], Inr ())))"

text \<open>
  \<open>int * float\<close>: the integer is converted to the nearest double, \<open>OverflowError\<close> when it
  is too large for one, and the product is rounded.
\<close>

definition float_of_int :: "int \<Rightarrow> error + float64" where
  "float_of_int n = (case rnd (of_int n) of Num q \<Rightarrow> Inr (Num q) | _ \<Rightarrow> Inl OverflowError)"

definition int_times_float :: "int \<Rightarrow> float64 \<Rightarrow> error + float64" where
  "int_times_float n x = (case float_of_int n of Inl e \<Rightarrow> Inl e | Inr f \<Rightarrow> Inr (fmul f x))"

text \<open>The literal \<open>0.1\<close> of line 129.\<close>

definition time_step :: float64 where
  "time_step = rnd (1 / 10)"

text \<open>Lines 121 and 122: the readings at a distance of at most 1.5.\<close>

definition contact_within_1_5m :: "tag_df \<Rightarrow> tag_df" where
  "contact_within_1_5m tag_df = filter (\<lambda>r. fle (Distance_m r) (Num (3 / 2))) tag_df"

text \<open>
  \<open>plot_positions\<close> draws the track of each tag and the contact points; the figure is
  what it is given to draw.
\<close>

record figure =
  track_a :: "(float64 \<times> float64) list"
  track_b :: "(float64 \<times> float64) list"
  contact_points :: "(float64 \<times> float64) list"

definition plot_positions :: "pos_df \<Rightarrow> (tag_row \<times> pos_row) list \<Rightarrow> figure" where
  "plot_positions position_df contact =
     \<lparr>track_a = map (\<lambda>r. (x_m r, y_m r)) (filter (\<lambda>r. TagID r = str ''A'') position_df),
      track_b = map (\<lambda>r. (x_m r, y_m r)) (filter (\<lambda>r. TagID r = str ''B'') position_df),
      contact_points = map (\<lambda>(t, r). (x_m r, y_m r)) contact\<rparr>"

text \<open>The values \<open>tag_analysis\<close> computes, kept for the properties below.\<close>

record analysis =
  contact_within_1_5m_a_pos :: "(tag_row \<times> pos_row) list"
  contact_within_1_5m_b_pos :: "(tag_row \<times> pos_row) list"
  total_contact_duration :: float64
  shown :: figure

text \<open>
  Lines 126 and 127: the join of a tag's close readings with the position rows of that
  tag. The position rows have keys of dtype \<open>float64\<close>; the readings have keys of dtype
  \<open>object\<close> when the tag's table has no rows, and then the dtypes are compared only if the
  position side has no rows either.
\<close>

definition merge_raises :: "libraries \<Rightarrow> tag_df \<Rightarrow> pos_df \<Rightarrow> error option" where
  "merge_raises libs tag_df positions =
     (if object_columns tag_df \<and> positions = [] then merge_object_float libs else None)"

text \<open>
  \<open>tag_analysis\<close> ignores its two tag paths. \<open>correct_tag_ids\<close> changes \<open>position_df\<close> in
  place and returns it, so the joins of lines 126 and 127 read the corrected rows.
\<close>

definition tag_analysis ::
    "libraries \<Rightarrow> (nat \<Rightarrow> pystr) \<Rightarrow> (pystr \<Rightarrow> error + table) \<Rightarrow> pystr \<Rightarrow> pystr \<Rightarrow> pystr
      \<Rightarrow> int \<Rightarrow> line list \<times> (error + analysis)" where
  "tag_analysis libs unicode_lower read_csv tag_a tag_b position numtags =
     (case read_csv_files unicode_lower read_csv position numtags of
        Inl e \<Rightarrow> ([], Inl e)
      | Inr (tag_a_tbl, tag_b_tbl, position_tbl) \<Rightarrow>
          (case check_tag_connections tag_a_tbl tag_b_tbl of
             (out1, Inl e) \<Rightarrow> (out1, Inl e)
           | (out1, Inr _) \<Rightarrow>
               (case (tag_a_tbl, tag_b_tbl, position_tbl) of
                  (TagTable tag_a_df, TagTable tag_b_df, PosTable position_df) \<Rightarrow>
                    (case correct_tag_ids position_df of
                       (out2, Inl e) \<Rightarrow> (out1 @ out2, Inl e)
                     | (out2, Inr position_df_corrected) \<Rightarrow>
                         (case verify_distances libs tag_a_df tag_b_df of
                            (out3, Inl e) \<Rightarrow> (out1 @ out2 @ out3, Inl e)
                          | (out3, Inr _) \<Rightarrow>
                              (let contact_a = contact_within_1_5m tag_a_df;
                                   contact_b = contact_within_1_5m tag_b_df;
                                   position_a =
                                     filter (\<lambda>r. TagID r = str ''A'') position_df_corrected;
                                   position_b =
                                     filter (\<lambda>r. TagID r = str ''B'') position_df_corrected;
                                   contact_a_pos =
                                     merge_on_time Time_s pos_Time_s contact_a position_a;
                                   contact_b_pos =
                                     merge_on_time Time_s pos_Time_s contact_b position_b
                               in (case merge_raises libs tag_a_df position_a of
                                     Some e \<Rightarrow> (out1 @ out2 @ out3, Inl e)
                                   | None \<Rightarrow>
                                   (case merge_raises libs tag_b_df position_b of
                                     Some e \<Rightarrow> (out1 @ out2 @ out3, Inl e)
                                   | None \<Rightarrow>
                                   (case int_times_float
                                           (int (min (length contact_a) (length contact_b)))
                                           time_step of
                                     Inl e \<Rightarrow> (out1 @ out2 @ out3, Inl e)
                                   | Inr duration \<Rightarrow>
                                       (out1 @ out2 @ out3 @ [TotalContactDuration duration],
                                        Inr \<lparr>contact_within_1_5m_a_pos = contact_a_pos,
                                             contact_within_1_5m_b_pos = contact_b_pos,
                                             total_contact_duration = duration,
                                             shown = plot_positions position_df_corrected
                                                       contact_a_pos\<rparr>)))))))
                | _ \<Rightarrow> (out1, Inl KeyError))))"

text \<open>Concrete sessions used below: the three files, and a lower-casing table.\<close>

definition session_files :: "tag_df \<Rightarrow> tag_df \<Rightarrow> pos_df \<Rightarrow> pystr \<Rightarrow> error + table" where
  "session_files a b p path =
     (if path = str ''TagA.csv'' then Inr (TagTable a)
      else if path = str ''TagB.csv'' then Inr (TagTable b)
      else if path = str ''position.csv'' then Inr (PosTable p)
      else Inl FileNotFoundError)"

definition keep_case :: "nat \<Rightarrow> pystr" where
  "keep_case c = [c]"

definition strict_libraries :: libraries where
  "strict_libraries =
     \<lparr>isclose_object_left = Some TypeError, merge_object_float = Some ValueError\<rparr>"

definition fifty_close :: tag_df where
  "fifty_close = map (\<lambda>k. reading (of_nat k / 10) ''B'' 1) [0..<50]"

definition forty_close :: tag_df where
  "forty_close = map (\<lambda>k. reading (of_nat k / 10) ''A'' (if k < 40 then 1 else 2)) [0..<50]"

definition early_reading_a :: tag_df where
  "early_reading_a = [reading 0 ''B'' 1]"

definition later_reading_b :: tag_df where
  "later_reading_b = [reading (1 / 10) ''A'' 1]"

definition late_positions :: pos_df where
  "late_positions = [pos 5 ''A'', pos 5 ''B'', pos 6 ''A'', pos 6 ''B'']"

section \<open>Properties of the tag-ID corrector\<close>

lemma set_unique: "set (unique xs) = set xs"
  by (induction xs rule: unique.induct) auto

lemma unique_Nil_iff: "unique xs = [] \<longleftrightarrow> xs = []"
  by (cases xs) simp_all

lemma length_unique_le: "length (unique xs) \<le> length xs"
proof (induction xs rule: unique.induct)
  case 1
  show ?case by simp
next
  case (2 v vs)
  have "length (filter (\<lambda>w. w \<noteq> v) vs) \<le> length vs" by simp
  with 2 have "length (unique (filter (\<lambda>w. w \<noteq> v) vs)) \<le> length vs"
    by (rule le_trans)
  then show ?case by simp
qed

lemma unique_constant:
  assumes "xs \<noteq> []" and "\<forall>x\<in>set xs. x = a"
  shows "unique xs = [a]"
proof (cases xs)
  case Nil
  with assms show ?thesis by simp
next
  case (Cons v vs)
  with assms have "v = a" and "filter (\<lambda>w. w \<noteq> a) vs = []"
    by (auto simp: filter_empty_conv)
  with Cons show ?thesis by simp
qed

lemma fold_keep_greatest:
  "fold (\<lambda>x m. if m < x then x else m) ys (y::'a::linorder) = Max (set (y # ys))"
proof -
  have "(\<lambda>x m. if m < x then x else m) = (max :: 'a \<Rightarrow> 'a \<Rightarrow> 'a)"
    by (auto simp: fun_eq_iff max_def)
  then show ?thesis using Max.set_eq_fold[of y ys] by simp
qed

lemma max_py_greatest:
  assumes "max_py xs = Inr m" and "x \<in> set xs"
  shows "x \<le> m"
proof (cases xs)
  case Nil
  with assms show ?thesis by simp
next
  case (Cons y ys)
  with assms have "m = Max (set xs)"
    by (simp add: max_py_def fold_keep_greatest)
  with assms show ?thesis by simp
qed

lemma length_relabel_odd: "length (relabel_odd l df) = length df"
  by (simp add: relabel_odd_def)

lemma nth_relabel_odd:
  "i < length df \<Longrightarrow>
   relabel_odd l df ! i = (if odd i then (df ! i)\<lparr>TagID := l\<rparr> else df ! i)"
  by (simp add: relabel_odd_def nth_enumerate_eq odd_iff_mod_2_eq_one)

lemma next_available_letter_greater:
  assumes "next_available_letter tags = Inr l" and "t \<in> set tags"
  shows "t < l"
proof -
  from assms(1) obtain m c where m: "max_py tags = Inr m" and c: "ord_py m = Inr c"
    and l: "chr_py (c + 1) = Inr l"
    by (auto simp: next_available_letter_def split: sum.splits)
  from c obtain k where k: "m = [k]" "c = int k"
    by (auto simp: ord_py_def split: list.splits)
  from l k have "l = [Suc k]"
    by (auto simp: chr_py_def nat_add_distrib split: if_splits)
  with k have "m < l" by simp
  with max_py_greatest[OF m assms(2)] show ?thesis by simp
qed

lemma detected_two_rows:
  assumes "df \<noteq> []"
    and "length (unique (map TagID df)) \<noteq> length df div length (unique (map TagID df))"
  shows "2 \<le> length df"
proof (rule ccontr)
  assume "\<not> 2 \<le> length df"
  then have "length df < 2" by simp
  with assms(1) have n: "length df = 1" by (cases df) simp_all
  have "length (unique (map TagID df)) \<le> 1"
    using length_unique_le[of "map TagID df"] n by simp
  moreover have "unique (map TagID df) \<noteq> []"
    using assms(1) by (simp add: unique_Nil_iff)
  ultimately have "length (unique (map TagID df)) = 1"
    by (cases "unique (map TagID df)") auto
  with n assms(2) show False by simp
qed

lemma relabel_odd_changes:
  assumes "2 \<le> length df" and "\<forall>r\<in>set df. TagID r \<noteq> l"
  shows "relabel_odd l df \<noteq> df"
proof
  assume eq: "relabel_odd l df = df"
  from assms(1) have i: "1 < length df" by simp
  then have "relabel_odd l df ! 1 = (df ! 1)\<lparr>TagID := l\<rparr>"
    by (simp add: nth_relabel_odd)
  with eq have "TagID (df ! 1) = l"
    by (metis pos_row.select_convs(2) pos_row.surjective pos_row.update_convs(2))
  moreover from i have "df ! 1 \<in> set df" by simp
  ultimately show False using assms(2) by blast
qed

text \<open>
  C10. On the empty position dataset \<open>correct_tag_ids\<close> returns no data frame: the number
  of distinct identifiers is zero, and the division by it raises \<open>ZeroDivisionError\<close>
  before anything is printed.
\<close>

theorem correct_tag_ids_empty:
  "correct_tag_ids [] = ([], Inl ZeroDivisionError)"
  by (simp add: correct_tag_ids_def)

text \<open>
  C1. A dataset with the two identifiers A and B at three timestamps, one row per
  timestamp and identifier, is not returned unchanged: 2 differs from 6 // 2, the error is
  reported, and the rows at odd indices, the rows of B, are relabelled C.
\<close>

theorem correct_tag_ids_two_tags_three_times:
  "length (unique (map TagID two_tags_three_times)) = 2
   \<and> distinct (map (\<lambda>r. (pos_Time_s r, TagID r)) two_tags_three_times)
   \<and> correct_tag_ids two_tags_three_times =
       ([MeasurementError],
        Inr [pos 0 ''A'', pos 0 ''C'', pos (1 / 10) ''A'', pos (1 / 10) ''C'',
             pos (1 / 5) ''A'', pos (1 / 5) ''C''])
   \<and> snd (correct_tag_ids two_tags_three_times) \<noteq> Inr two_tags_three_times"
  by code_simp

text \<open>
  With exactly two identifiers the dataset comes back untouched only when it has four or
  five rows.
\<close>

lemma two_tags_unchanged_iff:
  assumes "length (unique (map TagID position_df)) = 2"
  shows "correct_tag_ids position_df = ([], Inr position_df)
           \<longleftrightarrow> length position_df = 4 \<or> length position_df = 5"
proof -
  have "(2 = length position_df div 2) = (length position_df = 4 \<or> length position_df = 5)"
    by presburger
  moreover from assms have "unique (map TagID position_df) \<noteq> []" by auto
  ultimately show ?thesis
    using assms by (simp add: correct_tag_ids_def Let_def)
qed

lemma next_available_letter_single:
  "next_available_letter tags = Inr letter
     \<longleftrightarrow> (\<exists>c. max_py tags = Inr [c] \<and> c < 1114111 \<and> letter = [c + 1])"
proof
  assume "next_available_letter tags = Inr letter"
  then obtain m k where m: "max_py tags = Inr m" and k: "ord_py m = Inr k"
    and l: "chr_py (k + 1) = Inr letter"
    by (auto simp: next_available_letter_def split: sum.splits)
  from k obtain c where c: "m = [c]" "k = int c"
    by (auto simp: ord_py_def split: list.splits)
  from l c have "c < 1114111" and "letter = [c + 1]"
    by (auto simp: chr_py_def nat_add_distrib split: if_splits)
  with m c show "\<exists>c. max_py tags = Inr [c] \<and> c < 1114111 \<and> letter = [c + 1]"
    by blast
next
  assume "\<exists>c. max_py tags = Inr [c] \<and> c < 1114111 \<and> letter = [c + 1]"
  then show "next_available_letter tags = Inr letter"
    by (auto simp: next_available_letter_def ord_py_def chr_py_def nat_add_distrib)
qed

text \<open>
  C2. On a non-empty position dataset the duplicate-labelling error is reported exactly
  when the number of distinct tag identifiers differs from the integer quotient of the
  number of rows by the number of distinct identifiers. When it is not reported, nothing
  is printed and the dataset is returned as it was. When it is reported, rows are
  relabelled exactly if the greatest identifier is a single character below the last code
  point: then the dataset comes back with its odd rows relabelled, which differs from the
  input; otherwise an exception is raised after the report and no dataset comes back.
\<close>

theorem correct_tag_ids_detection:
  assumes "position_df \<noteq> []"
  shows "(fst (correct_tag_ids position_df) = [MeasurementError] \<longleftrightarrow>
            length (unique (map TagID position_df))
              \<noteq> length position_df div length (unique (map TagID position_df)))
       \<and> (length (unique (map TagID position_df))
              = length position_df div length (unique (map TagID position_df)) \<longrightarrow>
            correct_tag_ids position_df = ([], Inr position_df))
       \<and> (length (unique (map TagID position_df))
              \<noteq> length position_df div length (unique (map TagID position_df))
            \<and> max_py (unique (map TagID position_df)) = Inr [c] \<and> c < 1114111 \<longrightarrow>
            correct_tag_ids position_df
              = ([MeasurementError], Inr (relabel_odd [c + 1] position_df))
            \<and> relabel_odd [c + 1] position_df \<noteq> position_df)
       \<and> (length (unique (map TagID position_df))
              \<noteq> length position_df div length (unique (map TagID position_df))
            \<and> (\<forall>k. max_py (unique (map TagID position_df)) = Inr [k] \<longrightarrow> \<not> k < 1114111) \<longrightarrow>
            (\<exists>e. correct_tag_ids position_df = ([MeasurementError], Inl e)))
       \<and> (\<forall>df'. snd (correct_tag_ids position_df) = Inr df' \<longrightarrow>
            (df' \<noteq> position_df \<longleftrightarrow>
               length (unique (map TagID position_df))
                 \<noteq> length position_df div length (unique (map TagID position_df))))"
proof -
  let ?u = "unique (map TagID position_df)"
  from assms have u: "length ?u \<noteq> 0" by (simp add: unique_Nil_iff)
  show ?thesis
  proof (cases "length ?u \<noteq> length position_df div length ?u")
    case False
    with u have "correct_tag_ids position_df = ([], Inr position_df)"
      by (simp add: correct_tag_ids_def Let_def)
    with False show ?thesis by simp
  next
    case True
    with u have r: "correct_tag_ids position_df =
        ([MeasurementError],
         case next_available_letter ?u of Inl e \<Rightarrow> Inl e
         | Inr letter \<Rightarrow> Inr (relabel_odd letter position_df))"
      by (simp add: correct_tag_ids_def Let_def)
    have changed: "relabel_odd l position_df \<noteq> position_df"
      if l: "next_available_letter ?u = Inr l" for l
    proof -
      have "\<forall>r\<in>set position_df. TagID r \<noteq> l"
        using next_available_letter_greater[OF l] by (fastforce simp: set_unique)
      with detected_two_rows[OF assms True] show ?thesis
        by (simp add: relabel_odd_changes)
    qed
    have single: "correct_tag_ids position_df
          = ([MeasurementError], Inr (relabel_odd [c + 1] position_df))
        \<and> relabel_odd [c + 1] position_df \<noteq> position_df"
      if "max_py ?u = Inr [c] \<and> c < 1114111"
    proof -
      from that have "next_available_letter ?u = Inr [c + 1]"
        by (simp add: next_available_letter_single)
      with r changed show ?thesis by simp
    qed
    have raised: "\<exists>e. correct_tag_ids position_df = ([MeasurementError], Inl e)"
      if "\<forall>k. max_py ?u = Inr [k] \<longrightarrow> \<not> k < 1114111"
    proof (cases "next_available_letter ?u")
      case (Inl e)
      with r show ?thesis by simp
    next
      case (Inr l)
      with that show ?thesis by (auto simp: next_available_letter_single)
    qed
    have "df' \<noteq> position_df" if "snd (correct_tag_ids position_df) = Inr df'" for df'
    proof -
      from that r obtain l where "next_available_letter ?u = Inr l"
        and "df' = relabel_odd l position_df"
        by (auto split: sum.splits)
      with changed show ?thesis by simp
    qed
    with r True single raised show ?thesis by simp
  qed
qed

theorem correct_tag_ids_detection_witness:
  "two_tags_two_times \<noteq> []
   \<and> length (unique (map TagID two_tags_two_times))
       = length two_tags_two_times div length (unique (map TagID two_tags_two_times))
   \<and> fst (correct_tag_ids two_tags_two_times) \<noteq> [MeasurementError]
   \<and> correct_tag_ids two_tags_two_times = ([], Inr two_tags_two_times)
   \<and> two_tags_three_times \<noteq> []
   \<and> length (unique (map TagID two_tags_three_times))
       \<noteq> length two_tags_three_times div length (unique (map TagID two_tags_three_times))
   \<and> max_py (unique (map TagID two_tags_three_times)) = Inr [66] \<and> (66::nat) < 1114111
   \<and> correct_tag_ids two_tags_three_times
       = ([MeasurementError], Inr (relabel_odd [66 + 1] two_tags_three_times))
   \<and> relabel_odd [66 + 1] two_tags_three_times \<noteq> two_tags_three_times
   \<and> only_A_rows \<noteq> []
   \<and> snd (correct_tag_ids only_A_rows) = Inr (relabel_odd (str ''B'') only_A_rows)
   \<and> relabel_odd (str ''B'') only_A_rows \<noteq> only_A_rows"
proof -
  have h: "two_tags_two_times \<noteq> []" by (simp add: two_tags_two_times_def)
  have c: "length (unique (map TagID two_tags_two_times))
       = length two_tags_two_times div length (unique (map TagID two_tags_two_times))"
    by code_simp
  have h': "two_tags_three_times \<noteq> []" by (simp add: two_tags_three_times_def)
  have c': "length (unique (map TagID two_tags_three_times))
       \<noteq> length two_tags_three_times div length (unique (map TagID two_tags_three_times))"
    by code_simp
  have m': "max_py (unique (map TagID two_tags_three_times)) = Inr [66]"
    by code_simp
  have h'': "only_A_rows \<noteq> []" by (simp add: only_A_rows_def)
  have c'': "length (unique (map TagID only_A_rows))
       \<noteq> length only_A_rows div length (unique (map TagID only_A_rows))"
    by code_simp
  have r'': "snd (correct_tag_ids only_A_rows) = Inr (relabel_odd (str ''B'') only_A_rows)"
    by code_simp
  from correct_tag_ids_detection[OF h] c
  have 1: "fst (correct_tag_ids two_tags_two_times) \<noteq> [MeasurementError]
      \<and> correct_tag_ids two_tags_two_times = ([], Inr two_tags_two_times)"
    by simp
  from correct_tag_ids_detection[OF h', of 66] c' m'
  have 2: "correct_tag_ids two_tags_three_times
       = ([MeasurementError], Inr (relabel_odd [66 + 1] two_tags_three_times))
     \<and> relabel_odd [66 + 1] two_tags_three_times \<noteq> two_tags_three_times"
    by simp
  from correct_tag_ids_detection[OF h''] c'' r''
  have 3: "relabel_odd (str ''B'') only_A_rows \<noteq> only_A_rows"
    by blast
  from h c h' c' m' h'' r'' 1 2 3 show ?thesis by simp
qed

text \<open>
  Without the condition on the greatest identifier the relabelling of C2 fails: three rows
  with the identifier AB have one distinct identifier and 3 // 1 rows per identifier, the
  error is reported, and \<open>ord\<close> raises \<open>TypeError\<close> on the two characters, so no row is
  relabelled.
\<close>

theorem correct_tag_ids_long_name:
  "long_name_rows \<noteq> []
   \<and> length (unique (map TagID long_name_rows))
       \<noteq> length long_name_rows div length (unique (map TagID long_name_rows))
   \<and> correct_tag_ids long_name_rows = ([MeasurementError], Inl TypeError)"
  by code_simp

text \<open>
  C5. When the error is detected and the greatest identifier is a single character below
  the last code point, every row at an odd row index gets the next character as its
  \<open>TagID\<close>, and every row at an even index is kept. In particular a dataset of at least two
  rows, all labelled A, comes back with its odd rows labelled B.
\<close>

theorem correct_tag_ids_relabels_odd_rows:
  "(position_df \<noteq> []
      \<and> length (unique (map TagID position_df))
          \<noteq> length position_df div length (unique (map TagID position_df))
      \<and> max_py (unique (map TagID position_df)) = Inr [c] \<and> c < 1114111
    \<longrightarrow> correct_tag_ids position_df
          = ([MeasurementError], Inr (relabel_odd [c + 1] position_df))
        \<and> length (relabel_odd [c + 1] position_df) = length position_df
        \<and> (\<forall>i<length position_df.
              relabel_odd [c + 1] position_df ! i
                = (if odd i then (position_df ! i)\<lparr>TagID := [c + 1]\<rparr> else position_df ! i)))
   \<and> (2 \<le> length position_df \<and> (\<forall>r\<in>set position_df. TagID r = str ''A'')
    \<longrightarrow> correct_tag_ids position_df
          = ([MeasurementError], Inr (relabel_odd (str ''B'') position_df)))"
proof (intro conjI impI)
  assume a: "position_df \<noteq> []
      \<and> length (unique (map TagID position_df))
          \<noteq> length position_df div length (unique (map TagID position_df))
      \<and> max_py (unique (map TagID position_df)) = Inr [c] \<and> c < 1114111"
  then have "next_available_letter (unique (map TagID position_df)) = Inr [c + 1]"
    by (simp add: next_available_letter_def ord_py_def chr_py_def nat_add_distrib)
  with a show "correct_tag_ids position_df
      = ([MeasurementError], Inr (relabel_odd [c + 1] position_df))"
    by (simp add: correct_tag_ids_def Let_def unique_Nil_iff)
  show "length (relabel_odd [c + 1] position_df) = length position_df"
    by (rule length_relabel_odd)
  show "\<forall>i<length position_df.
      relabel_odd [c + 1] position_df ! i
        = (if odd i then (position_df ! i)\<lparr>TagID := [c + 1]\<rparr> else position_df ! i)"
    by (simp add: nth_relabel_odd)
next
  assume b: "2 \<le> length position_df \<and> (\<forall>r\<in>set position_df. TagID r = str ''A'')"
  then have ne: "map TagID position_df \<noteq> []" by auto
  from b have "\<forall>x\<in>set (map TagID position_df). x = str ''A''" by simp
  with ne have u: "unique (map TagID position_df) = [str ''A'']"
    by (rule unique_constant)
  have "next_available_letter [str ''A''] = Inr (str ''B'')"
    by (simp add: next_available_letter_def max_py_def ord_py_def chr_py_def str_def)
  with u b show "correct_tag_ids position_df
      = ([MeasurementError], Inr (relabel_odd (str ''B'') position_df))"
    by (simp add: correct_tag_ids_def Let_def)
qed

theorem correct_tag_ids_relabels_odd_rows_witness:
  "only_A_rows \<noteq> [] \<and> 2 \<le> length only_A_rows
   \<and> set (map TagID only_A_rows) = {str ''A''}
   \<and> length (unique (map TagID only_A_rows))
       \<noteq> length only_A_rows div length (unique (map TagID only_A_rows))
   \<and> max_py (unique (map TagID only_A_rows)) = Inr [65] \<and> (65::nat) < 1114111
   \<and> correct_tag_ids only_A_rows
       = ([MeasurementError],
          Inr [pos 0 ''A'', pos 0 ''B'', pos (1 / 10) ''A'', pos (1 / 10) ''B''])"
proof -
  have 1: "only_A_rows \<noteq> [] \<and> 2 \<le> length only_A_rows
      \<and> (\<forall>r\<in>set only_A_rows. TagID r = str ''A'')"
    by (simp add: only_A_rows_def pos_def)
  have 2: "length (unique (map TagID only_A_rows))
       \<noteq> length only_A_rows div length (unique (map TagID only_A_rows))"
    by code_simp
  have 3: "max_py (unique (map TagID only_A_rows)) = Inr [65]"
    by code_simp
  have 4: "relabel_odd (str ''B'') only_A_rows
       = [pos 0 ''A'', pos 0 ''B'', pos (1 / 10) ''A'', pos (1 / 10) ''B'']"
    by code_simp
  have 5: "set (map TagID only_A_rows) = {str ''A''}"
    by (simp add: only_A_rows_def pos_def)
  from correct_tag_ids_relabels_odd_rows[of only_A_rows 65] 1 2 3
  have "correct_tag_ids only_A_rows
      = ([MeasurementError], Inr (relabel_odd (str ''B'') only_A_rows))"
    by blast
  with 1 2 3 4 5 show ?thesis by simp
qed

text \<open>
  The condition on the greatest identifier is needed: with the identifier AA in both rows
  the error is detected and reported, and \<open>ord\<close> then raises \<open>TypeError\<close>.
\<close>

theorem correct_tag_ids_double_letter:
  "double_letter_rows \<noteq> []
   \<and> length (unique (map TagID double_letter_rows))
       \<noteq> length double_letter_rows div length (unique (map TagID double_letter_rows))
   \<and> correct_tag_ids double_letter_rows = ([MeasurementError], Inl TypeError)"
  by code_simp

section \<open>Properties of the distance verifier\<close>

lemma uninterrupted_loop_append:
  "uninterrupted_loop (xs @ ys) s = uninterrupted_loop ys (uninterrupted_loop xs s)"
  by (induction xs s rule: uninterrupted_loop.induct) simp_all

lemma run_starts_snoc:
  "run_starts (ws @ [w]) = run_starts ws + (if w \<and> (ws = [] \<or> \<not> last ws) then 1 else 0)"
proof -
  have "filter (\<lambda>i. (ws @ [w]) ! i \<and> (i = 0 \<or> \<not> (ws @ [w]) ! (i - 1))) [0..<length ws]
      = filter (\<lambda>i. ws ! i \<and> (i = 0 \<or> \<not> ws ! (i - 1))) [0..<length ws]"
    by (rule filter_cong) (auto simp: nth_append)
  moreover have "(length ws = 0 \<or> \<not> (ws @ [w]) ! (length ws - 1)) = (ws = [] \<or> \<not> last ws)"
    by (cases "ws = []") (simp_all add: nth_append last_conv_nth)
  ultimately show ?thesis
    by (simp add: run_starts_def)
qed

lemma uninterrupted_loop_run_starts:
  "uninterrupted_loop ws (0, False) = (run_starts ws, ws \<noteq> [] \<and> last ws)"
proof (induction ws rule: rev_induct)
  case Nil
  show ?case by (simp add: run_starts_def)
next
  case (snoc w ws)
  then show ?case
    by (simp add: uninterrupted_loop_append run_starts_snoc)
qed

lemma round_half_even_nonneg: "0 \<le> q \<Longrightarrow> 0 \<le> round_half_even q"
  by (simp add: round_half_even_def Let_def)

lemma rnd_nonneg:
  assumes "0 \<le> q"
  shows "rnd q = PosInf \<or> (\<exists>r\<ge>0. rnd q = Num r)"
proof (cases "q = 0")
  case True
  then show ?thesis by (simp add: rnd_def)
next
  case False
  with assms have q: "0 < q" by simp
  define ulp :: rat where "ulp = power_int 2 (max (ilog2 \<bar>q\<bar>) (- 1022) - 52)"
  have ulp: "0 < ulp" by (simp add: ulp_def zero_less_power_int)
  with q have "0 \<le> \<bar>q\<bar> / ulp" by simp
  then have "0 \<le> round_half_even (\<bar>q\<bar> / ulp)" by (rule round_half_even_nonneg)
  with ulp have "0 \<le> of_int (round_half_even (\<bar>q\<bar> / ulp)) * ulp" by simp
  with q False show ?thesis
    by (simp add: rnd_def Let_def ulp_def)
qed

lemma rtol_value: "rtol = Num (5902958103587057 / 590295810358705651712)"
  by code_simp

lemma atol_value: "atol = Num (3022314549036573 / 302231454903657293676544)"
  by code_simp

lemma tolerance_nonneg: "fle (Num 0) (fadd atol (fmul rtol (fabs (Num q))))"
proof -
  have "0 \<le> 5902958103587057 / 590295810358705651712 * \<bar>q\<bar>" by simp
  from rnd_nonneg[OF this]
  consider "fmul rtol (fabs (Num q)) = PosInf"
    | r where "0 \<le> r" "fmul rtol (fabs (Num q)) = Num r"
    by (auto simp: rtol_value)
  then show ?thesis
  proof cases
    case 1
    then show ?thesis by (simp add: atol_value)
  next
    case 2
    then have "0 \<le> 3022314549036573 / 302231454903657293676544 + r" by simp
    from rnd_nonneg[OF this] 2 show ?thesis
      by (auto simp: atol_value)
  qed
qed

lemma isclose_refl: "d \<noteq> NaN \<Longrightarrow> isclose d d"
proof (cases d)
  case (Num q)
  have "fsub (Num q) (Num q) = Num 0" by (simp add: fsub_def rnd_def)
  with Num tolerance_nonneg[of q] show ?thesis by (simp add: isclose_def)
qed (simp_all add: isclose_def feq_def)

lemma merge_on_time_skip:
  assumes "\<forall>l\<in>set xs. key_r y \<noteq> key_l l"
  shows "merge_on_time key_l key_r xs (y # ys) = merge_on_time key_l key_r xs ys"
proof -
  have "map (\<lambda>l. map (Pair l) (filter (\<lambda>r. key_r r = key_l l) (y # ys))) xs
      = map (\<lambda>l. map (Pair l) (filter (\<lambda>r. key_r r = key_l l) ys)) xs"
    using assms by (intro map_cong) auto
  then show ?thesis unfolding merge_on_time_def by (rule arg_cong)
qed

lemma merge_on_time_zip:
  assumes "distinct (map key_l xs)" and "map key_r ys = map key_l xs"
  shows "merge_on_time key_l key_r xs ys = zip xs ys"
  using assms
proof (induction xs arbitrary: ys)
  case Nil
  then show ?case by (simp add: merge_on_time_def)
next
  case (Cons x xs)
  from Cons.prems(2) obtain y ys' where ys: "ys = y # ys'" and y: "key_r y = key_l x"
    and rest: "map key_r ys' = map key_l xs"
    by (cases ys) auto
  from Cons.prems(1) have nx: "key_l x \<notin> set (map key_l xs)" and d: "distinct (map key_l xs)"
    by simp_all
  from nx rest have "key_l x \<notin> set (map key_r ys')" by simp
  then have f: "filter (\<lambda>r. key_r r = key_l x) ys' = []"
    by (force simp: filter_empty_conv)
  from nx y have "\<forall>l\<in>set xs. key_r y \<noteq> key_l l" by auto
  then have "merge_on_time key_l key_r xs (y # ys') = merge_on_time key_l key_r xs ys'"
    by (rule merge_on_time_skip)
  also have "\<dots> = zip xs ys'" using d rest by (rule Cons.IH)
  finally have m: "merge_on_time key_l key_r xs (y # ys') = zip xs ys'" .
  have "merge_on_time key_l key_r (x # xs) (y # ys')
      = map (Pair x) (filter (\<lambda>r. key_r r = key_l x) (y # ys'))
        @ merge_on_time key_l key_r xs (y # ys')"
    by (simp add: merge_on_time_def)
  with f y m ys show ?case by simp
qed

lemma merge_on_time_disjoint:
  assumes "set (map key_l xs) \<inter> set (map key_r ys) = {}"
  shows "merge_on_time key_l key_r xs ys = []"
proof -
  have "filter (\<lambda>r. key_r r = key_l l) ys = []" if "l \<in> set xs" for l
    using assms that by (auto simp: filter_empty_conv)
  then show ?thesis by (simp add: merge_on_time_def)
qed

lemma filter_single:
  assumes "i < length xs" and "Q (xs ! i)"
    and "\<forall>j<length xs. j \<noteq> i \<longrightarrow> \<not> Q (xs ! j)"
  shows "filter Q xs = [xs ! i]"
proof -
  have "\<forall>x\<in>set (take i xs). \<not> Q x"
    using assms(1,3) by (auto simp: in_set_conv_nth)
  then have t: "filter Q (take i xs) = []" by (simp add: filter_empty_conv)
  have "\<forall>x\<in>set (drop (Suc i) xs). \<not> Q x"
  proof
    fix x assume "x \<in> set (drop (Suc i) xs)"
    then obtain k where "k < length xs - Suc i" and "x = xs ! (Suc i + k)"
      by (auto simp: in_set_conv_nth)
    with assms(3) show "\<not> Q x" by simp
  qed
  then have d: "filter Q (drop (Suc i) xs) = []" by (simp add: filter_empty_conv)
  have "xs = take i xs @ xs ! i # drop (Suc i) xs"
    using assms(1) by (rule id_take_nth_drop)
  then have "filter Q xs = filter Q (take i xs @ xs ! i # drop (Suc i) xs)" by simp
  with t d assms(2) show ?thesis by simp
qed

lemma isclose_raises_rows:
  "tag_a_df \<noteq> [] \<Longrightarrow> tag_b_df \<noteq> [] \<Longrightarrow> isclose_raises libs tag_a_df tag_b_df = None"
  by (simp add: isclose_raises_def object_columns_def)

lemma mismatched_distances_rows:
  assumes "tag_a_df \<noteq> []" and "tag_b_df \<noteq> []"
  shows "mismatched_distances libs tag_a_df tag_b_df
    = Inr (filter (\<lambda>(a, b). \<not> isclose (Distance_m a) (Distance_m b))
             (merge_on_time Time_s Time_s tag_a_df tag_b_df))"
  using assms by (simp add: mismatched_distances_def isclose_raises_rows)

lemma verify_distances_rows:
  assumes "mismatched_distances libs tag_a_df tag_b_df = Inr mismatched"
  shows "verify_distances libs tag_a_df tag_b_df =
     ((if mismatched \<noteq> []
       then [MismatchedDistances,
             MismatchTable (map (\<lambda>(a, b). (Time_s a, Distance_m a, Distance_m b)) mismatched)]
       else [AllDistancesMatch])
      @ [UninterruptedSessions
           (uninterrupted_periods
              (within_1_5m (merge_on_time Time_s Time_s tag_a_df tag_b_df)))],
      Inr ())"
  using assms by (simp add: verify_distances_def Let_def)

lemma mismatched_distances_zip:
  assumes "tag_a_df \<noteq> []" and "distinct (map Time_s tag_a_df)"
    and "map Time_s tag_b_df = map Time_s tag_a_df"
  shows "mismatched_distances libs tag_a_df tag_b_df
    = Inr (filter (\<lambda>(a, b). \<not> isclose (Distance_m a) (Distance_m b)) (zip tag_a_df tag_b_df))"
proof -
  from assms(1,3) have "tag_b_df \<noteq> []" by auto
  with assms show ?thesis
    by (simp add: mismatched_distances_rows merge_on_time_zip)
qed

lemma identical_distance_at:
  assumes "map Distance_m tag_b_df = map Distance_m tag_a_df" and "j < length tag_a_df"
  shows "Distance_m (tag_b_df ! j) = Distance_m (tag_a_df ! j)"
proof -
  from assms have "length tag_b_df = length tag_a_df"
    by (metis length_map)
  with assms(2) have "Distance_m (tag_b_df ! j) = map Distance_m tag_b_df ! j" by simp
  also have "\<dots> = Distance_m (tag_a_df ! j)" using assms by simp
  finally show ?thesis .
qed

lemma run_starts_card:
  "run_starts ws = card {i. i < length ws \<and> ws ! i \<and> (i = 0 \<or> \<not> ws ! (i - 1))}"
proof -
  have "run_starts ws
      = card ({i. ws ! i \<and> (i = 0 \<or> \<not> ws ! (i - 1))} \<inter> set [0..<length ws])"
    unfolding run_starts_def by (rule distinct_length_filter) simp
  also have "{i. ws ! i \<and> (i = 0 \<or> \<not> ws ! (i - 1))} \<inter> set [0..<length ws]
      = {i. i < length ws \<and> ws ! i \<and> (i = 0 \<or> \<not> ws ! (i - 1))}"
    by auto
  finally show ?thesis .
qed

lemma maximal_run_end_le:
  assumes "maximal_run ws i a" and "maximal_run ws i b"
  shows "b \<le> a"
proof (rule ccontr)
  assume "\<not> b \<le> a"
  then have ab: "a < b" by simp
  from assms(1) have ia: "i \<le> a" by (simp add: maximal_run_def)
  from assms(2) have b: "b < length ws" and all: "\<forall>k\<in>{i..b}. ws ! k"
    by (simp_all add: maximal_run_def)
  from ia ab have "a + 1 \<in> {i..b}" by simp
  with all have "ws ! (a + 1)" by blast
  moreover from ab b have "a + 1 \<noteq> length ws" by simp
  moreover from assms(1) have "a + 1 = length ws \<or> \<not> ws ! (a + 1)"
    by (simp add: maximal_run_def)
  ultimately show False by blast
qed

lemma maximal_run_end_unique:
  assumes "maximal_run ws i j" and "maximal_run ws i j'"
  shows "j = j'"
  using maximal_run_end_le[OF assms] maximal_run_end_le[OF assms(2,1)] by simp

lemma maximal_run_from_start:
  assumes "i < length ws" and "ws ! i" and "i = 0 \<or> \<not> ws ! (i - 1)"
  shows "\<exists>j. maximal_run ws i j"
proof -
  define K where "K = {k. i \<le> k \<and> k < length ws \<and> (\<forall>m\<in>{i..k}. ws ! m)}"
  have "K \<subseteq> {..<length ws}" by (auto simp: K_def)
  then have fin: "finite K" by (rule finite_subset) simp
  from assms(1,2) have "i \<in> K" by (simp add: K_def)
  then have ne: "K \<noteq> {}" by blast
  define j where "j = Max K"
  from fin ne have "Max K \<in> K" by (rule Max_in)
  then have "j \<in> K" by (simp only: j_def)
  then have j: "i \<le> j" "j < length ws" "\<forall>m\<in>{i..j}. ws ! m"
    by (simp_all add: K_def)
  have "j + 1 = length ws \<or> \<not> ws ! (j + 1)"
  proof (rule ccontr)
    assume "\<not> (j + 1 = length ws \<or> \<not> ws ! (j + 1))"
    with j(2) have l: "j + 1 < length ws" and w: "ws ! (j + 1)" by simp_all
    have "\<forall>m\<in>{i..j + 1}. ws ! m"
    proof
      fix m assume "m \<in> {i..j + 1}"
      then have "m \<in> {i..j} \<or> m = j + 1" by auto
      with j(3) w show "ws ! m" by blast
    qed
    with j(1) l have "j + 1 \<in> K" by (simp add: K_def)
    with fin have "j + 1 \<le> Max K" by (rule Max_ge)
    then have "j + 1 \<le> j" by (simp only: j_def)
    then show False by simp
  qed
  with j assms(3) have "maximal_run ws i j" by (simp add: maximal_run_def)
  then show ?thesis ..
qed

lemma card_maximal_runs: "card (maximal_runs ws) = run_starts ws"
proof -
  let ?S = "{i. i < length ws \<and> ws ! i \<and> (i = 0 \<or> \<not> ws ! (i - 1))}"
  have mem: "(i, j) \<in> maximal_runs ws \<longleftrightarrow> maximal_run ws i j" for i j
  proof -
    have "i < length ws \<and> j < length ws" if "maximal_run ws i j"
      using that by (simp add: maximal_run_def)
    then show ?thesis by (auto simp: maximal_runs_def)
  qed
  have "inj_on fst (maximal_runs ws)"
  proof (rule inj_onI)
    fix p q assume p: "p \<in> maximal_runs ws" and q: "q \<in> maximal_runs ws"
      and eq: "fst p = fst q"
    obtain i j where pij: "p = (i, j)" by (cases p)
    obtain i' j' where qij: "q = (i', j')" by (cases q)
    from eq pij qij have "i' = i" by simp
    with p q pij qij have "maximal_run ws i j" and "maximal_run ws i j'"
      by (simp_all add: mem)
    then have "j = j'" by (rule maximal_run_end_unique)
    with pij qij \<open>i' = i\<close> show "p = q" by simp
  qed
  then have "card (maximal_runs ws) = card (fst ` maximal_runs ws)"
    by (simp add: card_image)
  also have "fst ` maximal_runs ws = ?S"
  proof (intro equalityI subsetI)
    fix i assume "i \<in> fst ` maximal_runs ws"
    then obtain j where "maximal_run ws i j" using mem by force
    then show "i \<in> ?S" by (auto simp: maximal_run_def)
  next
    fix i assume "i \<in> ?S"
    then obtain j where "maximal_run ws i j" using maximal_run_from_start[of i ws] by blast
    then have "(i, j) \<in> maximal_runs ws" by (simp add: mem)
    then show "i \<in> fst ` maximal_runs ws" by force
  qed
  finally show ?thesis by (simp add: run_starts_card)
qed

text \<open>
  C3. For every joined sequence of tag A and tag B readings, the counter of
  \<open>verify_distances\<close> gives the number of maximal runs of consecutive rows in which both
  distances are at most 1.5. It is also the number of rows at which such a run starts: the
  rows within the threshold that are not immediately preceded by a row within the
  threshold. When both tag tables have rows, \<open>verify_distances\<close> returns and the last line
  it prints is that number for the join of the two tables. On the flags
  \<open>[T,T,F,T,T,T,F,F,T]\<close> the counter gives 3.
\<close>

theorem uninterrupted_periods_maximal_runs:
  "uninterrupted_periods (within_1_5m merged_tags)
     = card (maximal_runs
         (map (\<lambda>(a, b). fle (Distance_m a) (Num (3 / 2)) \<and> fle (Distance_m b) (Num (3 / 2)))
            merged_tags))
   \<and> uninterrupted_periods ws = card (maximal_runs ws)
   \<and> uninterrupted_periods ws = run_starts ws
   \<and> (tag_a_df \<noteq> [] \<and> tag_b_df \<noteq> [] \<longrightarrow>
        snd (verify_distances libs tag_a_df tag_b_df) = Inr ()
        \<and> last (fst (verify_distances libs tag_a_df tag_b_df))
          = UninterruptedSessions
              (card (maximal_runs
                 (map (\<lambda>(a, b). fle (Distance_m a) (Num (3 / 2))
                                 \<and> fle (Distance_m b) (Num (3 / 2)))
                    (merge_on_time Time_s Time_s tag_a_df tag_b_df)))))
   \<and> uninterrupted_periods [True, True, False, True, True, True, False, False, True] = 3"
proof (intro conjI impI)
  show runs: "uninterrupted_periods ws = card (maximal_runs ws)" for ws
    by (simp add: uninterrupted_periods_def uninterrupted_loop_run_starts card_maximal_runs)
  show flags: "uninterrupted_periods (within_1_5m merged_tags)
     = card (maximal_runs
         (map (\<lambda>(a, b). fle (Distance_m a) (Num (3 / 2)) \<and> fle (Distance_m b) (Num (3 / 2)))
            merged_tags))" for merged_tags
    by (simp add: runs within_1_5m_def)
  show "uninterrupted_periods ws = run_starts ws"
    by (simp add: uninterrupted_periods_def uninterrupted_loop_run_starts)
  show "uninterrupted_periods [True, True, False, True, True, True, False, False, True] = 3"
    by (simp add: uninterrupted_periods_def)
  assume rows: "tag_a_df \<noteq> [] \<and> tag_b_df \<noteq> []"
  then have m: "mismatched_distances libs tag_a_df tag_b_df
    = Inr (filter (\<lambda>(a, b). \<not> isclose (Distance_m a) (Distance_m b))
             (merge_on_time Time_s Time_s tag_a_df tag_b_df))"
    by (simp add: mismatched_distances_rows)
  show "snd (verify_distances libs tag_a_df tag_b_df) = Inr ()"
    by (simp add: verify_distances_rows[OF m])
  show "last (fst (verify_distances libs tag_a_df tag_b_df))
          = UninterruptedSessions
              (card (maximal_runs
                 (map (\<lambda>(a, b). fle (Distance_m a) (Num (3 / 2))
                                 \<and> fle (Distance_m b) (Num (3 / 2)))
                    (merge_on_time Time_s Time_s tag_a_df tag_b_df))))"
    by (simp add: verify_distances_rows[OF m] flags)
qed

theorem uninterrupted_periods_maximal_runs_witness:
  "synthetic_tag_a \<noteq> [] \<and> synthetic_tag_b \<noteq> []
   \<and> map (\<lambda>(a, b). fle (Distance_m a) (Num (3 / 2)) \<and> fle (Distance_m b) (Num (3 / 2)))
        (merge_on_time Time_s Time_s synthetic_tag_a synthetic_tag_b)
       = [True, True, False]
   \<and> snd (verify_distances strict_libraries synthetic_tag_a synthetic_tag_b) = Inr ()
   \<and> last (fst (verify_distances strict_libraries synthetic_tag_a synthetic_tag_b))
       = UninterruptedSessions 1
   \<and> card (maximal_runs [True, True, False, True, True, True, False, False, True]) = 3"
proof -
  have 1: "synthetic_tag_a \<noteq> [] \<and> synthetic_tag_b \<noteq> []"
    by (simp add: synthetic_tag_a_def synthetic_tag_b_def)
  have 2: "map (\<lambda>(a, b). fle (Distance_m a) (Num (3 / 2)) \<and> fle (Distance_m b) (Num (3 / 2)))
        (merge_on_time Time_s Time_s synthetic_tag_a synthetic_tag_b)
       = [True, True, False]"
    by code_simp
  note t = uninterrupted_periods_maximal_runs
  have "uninterrupted_periods [True, True, False] = 1"
    by (simp add: uninterrupted_periods_def)
  with t[of _ "[True, True, False]"]
  have 3: "card (maximal_runs [True, True, False]) = 1"
    by metis
  from t[of _ "[True, True, False, True, True, True, False, False, True]"]
  have 4: "card (maximal_runs [True, True, False, True, True, True, False, False, True]) = 3"
    by metis
  from t[of _ _ synthetic_tag_a synthetic_tag_b strict_libraries] 1
  have "snd (verify_distances strict_libraries synthetic_tag_a synthetic_tag_b) = Inr ()
     \<and> last (fst (verify_distances strict_libraries synthetic_tag_a synthetic_tag_b))
       = UninterruptedSessions
              (card (maximal_runs
                 (map (\<lambda>(a, b). fle (Distance_m a) (Num (3 / 2))
                                 \<and> fle (Distance_m b) (Num (3 / 2)))
                    (merge_on_time Time_s Time_s synthetic_tag_a synthetic_tag_b))))"
    by blast
  with 1 2 3 4 show ?thesis by simp
qed

text \<open>
  C6. Tag A and tag B tables that have rows, with the same timestamps, each timestamp
  once, and the same distances, none of them NaN, have no mismatched row:
  \<open>verify_distances\<close> returns and prints that all distances match. When the distance of
  exactly one row, of tag B or of tag A, is replaced by a value that \<open>np.isclose\<close> with its
  default tolerances does not accept, that row is the one mismatch reported.
\<close>

theorem verify_distances_identical_data:
  assumes "tag_a_df \<noteq> []"
    and "distinct (map Time_s tag_a_df)"
    and "map Time_s tag_b_df = map Time_s tag_a_df"
    and "map Distance_m tag_b_df = map Distance_m tag_a_df"
    and "NaN \<notin> set (map Distance_m tag_a_df)"
  shows "mismatched_distances libs tag_a_df tag_b_df = Inr []
    \<and> snd (verify_distances libs tag_a_df tag_b_df) = Inr ()
    \<and> hd (fst (verify_distances libs tag_a_df tag_b_df)) = AllDistancesMatch
    \<and> (i < length tag_b_df \<and> \<not> isclose (Distance_m (tag_a_df ! i)) d \<longrightarrow>
         mismatched_distances libs tag_a_df (tag_b_df[i := (tag_b_df ! i)\<lparr>Distance_m := d\<rparr>])
           = Inr [(tag_a_df ! i, (tag_b_df ! i)\<lparr>Distance_m := d\<rparr>)]
         \<and> snd (verify_distances libs tag_a_df
                  (tag_b_df[i := (tag_b_df ! i)\<lparr>Distance_m := d\<rparr>])) = Inr ()
         \<and> take 2 (fst (verify_distances libs tag_a_df
                          (tag_b_df[i := (tag_b_df ! i)\<lparr>Distance_m := d\<rparr>])))
           = [MismatchedDistances,
              MismatchTable [(Time_s (tag_a_df ! i), Distance_m (tag_a_df ! i), d)]])
    \<and> (i < length tag_a_df \<and> \<not> isclose d (Distance_m (tag_b_df ! i)) \<longrightarrow>
         mismatched_distances libs (tag_a_df[i := (tag_a_df ! i)\<lparr>Distance_m := d\<rparr>]) tag_b_df
           = Inr [((tag_a_df ! i)\<lparr>Distance_m := d\<rparr>, tag_b_df ! i)]
         \<and> snd (verify_distances libs
                  (tag_a_df[i := (tag_a_df ! i)\<lparr>Distance_m := d\<rparr>]) tag_b_df) = Inr ()
         \<and> take 2 (fst (verify_distances libs
                          (tag_a_df[i := (tag_a_df ! i)\<lparr>Distance_m := d\<rparr>]) tag_b_df))
           = [MismatchedDistances,
              MismatchTable [(Time_s (tag_a_df ! i), d, Distance_m (tag_b_df ! i))]])"
proof -
  let ?Q = "\<lambda>(a, b). \<not> isclose (Distance_m a) (Distance_m b)"
  from assms(3) have len: "length tag_b_df = length tag_a_df"
    by (metis length_map)
  have close: "isclose (Distance_m (tag_a_df ! j)) (Distance_m (tag_b_df ! j))"
    if "j < length tag_a_df" for j
  proof -
    from that assms(5) have "Distance_m (tag_a_df ! j) \<noteq> NaN"
      by (metis length_map nth_map nth_mem)
    then show ?thesis
      using identical_distance_at[OF assms(4) that] by (simp add: isclose_refl)
  qed
  have none: "mismatched_distances libs tag_a_df tag_b_df = Inr []"
    unfolding mismatched_distances_zip[OF assms(1,2,3)]
    using close len by (auto simp: filter_empty_conv in_set_zip)
  have changed_b:
    "mismatched_distances libs tag_a_df (tag_b_df[i := (tag_b_df ! i)\<lparr>Distance_m := d\<rparr>])
           = Inr [(tag_a_df ! i, (tag_b_df ! i)\<lparr>Distance_m := d\<rparr>)]"
    if i: "i < length tag_b_df" and far: "\<not> isclose (Distance_m (tag_a_df ! i)) d"
  proof -
    let ?b = "tag_b_df[i := (tag_b_df ! i)\<lparr>Distance_m := d\<rparr>]"
    have "Time_s (tag_b_df ! i) = map Time_s tag_a_df ! i"
      using assms(3) i by (metis nth_map)
    then have t: "map Time_s ?b = map Time_s tag_a_df"
      using assms(3) by (simp add: map_update)
    have "filter ?Q (zip tag_a_df ?b) = [zip tag_a_df ?b ! i]"
    proof (rule filter_single)
      show "i < length (zip tag_a_df ?b)" using i len by simp
      show "?Q (zip tag_a_df ?b ! i)" using i len far by simp
      show "\<forall>j<length (zip tag_a_df ?b). j \<noteq> i \<longrightarrow> \<not> ?Q (zip tag_a_df ?b ! j)"
        using close len by simp
    qed
    then show ?thesis
      using i len by (simp add: mismatched_distances_zip[OF assms(1,2) t])
  qed
  have changed_a:
    "mismatched_distances libs (tag_a_df[i := (tag_a_df ! i)\<lparr>Distance_m := d\<rparr>]) tag_b_df
           = Inr [((tag_a_df ! i)\<lparr>Distance_m := d\<rparr>, tag_b_df ! i)]"
    if i: "i < length tag_a_df" and far: "\<not> isclose d (Distance_m (tag_b_df ! i))"
  proof -
    let ?a = "tag_a_df[i := (tag_a_df ! i)\<lparr>Distance_m := d\<rparr>]"
    have "Time_s (tag_a_df ! i) = map Time_s tag_a_df ! i"
      using i by simp
    then have t: "map Time_s ?a = map Time_s tag_a_df"
      by (simp add: map_update)
    have "filter ?Q (zip ?a tag_b_df) = [zip ?a tag_b_df ! i]"
    proof (rule filter_single)
      show "i < length (zip ?a tag_b_df)" using i len by simp
      show "?Q (zip ?a tag_b_df ! i)" using i len far by simp
      show "\<forall>j<length (zip ?a tag_b_df). j \<noteq> i \<longrightarrow> \<not> ?Q (zip ?a tag_b_df ! j)"
        using close len by simp
    qed
    moreover have "?a \<noteq> []" and "distinct (map Time_s ?a)"
      and "map Time_s tag_b_df = map Time_s ?a"
      using assms(1,2,3) t by simp_all
    ultimately show ?thesis
      using i len by (simp add: mismatched_distances_zip)
  qed
  from changed_a changed_b show ?thesis
    by (simp add: verify_distances_rows[OF none] verify_distances_rows[OF changed_a]
        verify_distances_rows[OF changed_b] none)
qed

theorem verify_distances_identical_data_witness:
  "synthetic_tag_a \<noteq> []
   \<and> distinct (map Time_s synthetic_tag_a)
   \<and> map Time_s synthetic_tag_b = map Time_s synthetic_tag_a
   \<and> map Distance_m synthetic_tag_b = map Distance_m synthetic_tag_a
   \<and> NaN \<notin> set (map Distance_m synthetic_tag_a)
   \<and> 1 < length synthetic_tag_b \<and> 1 < length synthetic_tag_a
   \<and> \<not> isclose (Distance_m (synthetic_tag_a ! 1)) (Num (7 / 5))
   \<and> \<not> isclose (Num (7 / 5)) (Distance_m (synthetic_tag_b ! 1))
   \<and> mismatched_distances strict_libraries synthetic_tag_a synthetic_tag_b = Inr []
   \<and> snd (verify_distances strict_libraries synthetic_tag_a synthetic_tag_b) = Inr ()
   \<and> mismatched_distances strict_libraries synthetic_tag_a
        (synthetic_tag_b[1 := (synthetic_tag_b ! 1)\<lparr>Distance_m := Num (7 / 5)\<rparr>])
       = Inr [(reading (1 / 10) ''B'' (6 / 5), reading (1 / 10) ''A'' (7 / 5))]
   \<and> mismatched_distances strict_libraries
        (synthetic_tag_a[1 := (synthetic_tag_a ! 1)\<lparr>Distance_m := Num (7 / 5)\<rparr>])
        synthetic_tag_b
       = Inr [(reading (1 / 10) ''B'' (7 / 5), reading (1 / 10) ''A'' (6 / 5))]"
proof -
  have 0: "synthetic_tag_a \<noteq> []" by (simp add: synthetic_tag_a_def)
  have 1: "distinct (map Time_s synthetic_tag_a)"
    by (simp add: synthetic_tag_a_def reading_def)
  have 2: "map Time_s synthetic_tag_b = map Time_s synthetic_tag_a"
    by (simp add: synthetic_tag_a_def synthetic_tag_b_def reading_def)
  have 3: "map Distance_m synthetic_tag_b = map Distance_m synthetic_tag_a"
    by (simp add: synthetic_tag_a_def synthetic_tag_b_def reading_def)
  have 4: "NaN \<notin> set (map Distance_m synthetic_tag_a)"
    by (simp add: synthetic_tag_a_def reading_def)
  have 5: "1 < length synthetic_tag_b" "1 < length synthetic_tag_a"
    by (simp_all add: synthetic_tag_a_def synthetic_tag_b_def)
  have 6: "\<not> isclose (Distance_m (synthetic_tag_a ! 1)) (Num (7 / 5))"
    by code_simp
  have 7: "\<not> isclose (Num (7 / 5)) (Distance_m (synthetic_tag_b ! 1))"
    by code_simp
  have 8: "(synthetic_tag_a ! 1, (synthetic_tag_b ! 1)\<lparr>Distance_m := Num (7 / 5)\<rparr>)
      = (reading (1 / 10) ''B'' (6 / 5), reading (1 / 10) ''A'' (7 / 5))"
    "((synthetic_tag_a ! 1)\<lparr>Distance_m := Num (7 / 5)\<rparr>, synthetic_tag_b ! 1)
      = (reading (1 / 10) ''B'' (7 / 5), reading (1 / 10) ''A'' (6 / 5))"
    by (simp_all add: synthetic_tag_a_def synthetic_tag_b_def reading_def)
  from verify_distances_identical_data[OF 0 1 2 3 4, of strict_libraries 1 "Num (7 / 5)"] 5 6 7
  have "mismatched_distances strict_libraries synthetic_tag_a synthetic_tag_b = Inr []
    \<and> snd (verify_distances strict_libraries synthetic_tag_a synthetic_tag_b) = Inr ()
    \<and> mismatched_distances strict_libraries synthetic_tag_a
        (synthetic_tag_b[1 := (synthetic_tag_b ! 1)\<lparr>Distance_m := Num (7 / 5)\<rparr>])
       = Inr [(synthetic_tag_a ! 1, (synthetic_tag_b ! 1)\<lparr>Distance_m := Num (7 / 5)\<rparr>)]
    \<and> mismatched_distances strict_libraries
        (synthetic_tag_a[1 := (synthetic_tag_a ! 1)\<lparr>Distance_m := Num (7 / 5)\<rparr>])
        synthetic_tag_b
       = Inr [((synthetic_tag_a ! 1)\<lparr>Distance_m := Num (7 / 5)\<rparr>, synthetic_tag_b ! 1)]"
    by blast
  with 0 1 2 3 4 5 6 7 8 show ?thesis by simp
qed

text \<open>
  Without the condition on the timestamps C6 fails: a timestamp that occurs twice is
  joined with both of its rows on the other side, so a reading set compared with itself
  has two mismatched rows.
\<close>

theorem verify_distances_repeated_time:
  "map Time_s repeated_time_readings = map Time_s repeated_time_readings
   \<and> map Distance_m repeated_time_readings = map Distance_m repeated_time_readings
   \<and> verify_distances strict_libraries repeated_time_readings repeated_time_readings
       = ([MismatchedDistances,
           MismatchTable [(Num 0, Num 1, Num (6 / 5)), (Num 0, Num (6 / 5), Num 1)],
           UninterruptedSessions 1],
          Inr ())"
  by code_simp

text \<open>
  Tables without rows are another matter: their columns have the dtype \<open>object\<close>, and
  \<open>verify_distances\<close> raises at line 44 before it prints anything.
\<close>

lemma verify_distances_no_rows:
  "verify_distances libs tag_a_df [] = ([], Inl TypeError)"
  by (simp add: verify_distances_def mismatched_distances_def isclose_raises_def
      object_columns_def)

section \<open>Properties of the loader\<close>

lemma str_literals:
  "str ''Tag'' = [84, 97, 103]" "str ''.csv'' = [46, 99, 115, 118]"
  "str ''tag_'' = [116, 97, 103, 95]" "str ''tag_a'' = [116, 97, 103, 95, 97]"
  "str ''tag_b'' = [116, 97, 103, 95, 98]"
  "str ''TagA.csv'' = [84, 97, 103, 65, 46, 99, 115, 118]"
  "str ''TagB.csv'' = [84, 97, 103, 66, 46, 99, 115, 118]"
  by (simp_all add: str_def)

lemma tag_letters_one:
  assumes "0 \<le> person" and "person \<le> 25"
  shows "tag_letters person = Inr [nat person + 65]"
  using assms by (simp add: tag_letters_def chr_py_def nat_add_distrib)

lemma tag_letters_two:
  assumes "26 \<le> person" and "person < 28965248"
  shows "tag_letters person = Inr [nat (person div 26) + 64, nat (person mod 26) + 65]"
proof -
  from assms have "person div 26 < 1114048" by simp
  moreover from assms have "1 \<le> person div 26" by simp
  moreover have "0 \<le> person mod 26" and "person mod 26 < 26" by simp_all
  ultimately show ?thesis
    using assms by (simp add: tag_letters_def chr_py_def Let_def nat_add_distrib)
qed

lemma tag_letters_spreadsheet:
  assumes "0 \<le> person" and "person < 702"
  shows "tag_letters person = Inr (spreadsheet_column (nat person))"
proof (cases "person \<le> 25")
  case True
  with assms show ?thesis by (simp add: tag_letters_one)
next
  case False
  then have p: "26 \<le> person" by simp
  with assms have "person div 26 \<le> 26" and "1 \<le> person div 26" by simp_all
  then have "nat person div 26 - 1 < 26" and "1 \<le> nat person div 26"
    using assms(1) by (simp_all add: nat_div_distrib less_diff_conv)
  then have "spreadsheet_column (nat person)
      = [65 + (nat person div 26 - 1), 65 + nat person mod 26]"
    using p by simp
  moreover have "nat (person div 26) = nat person div 26" "nat (person mod 26) = nat person mod 26"
    using assms(1) by (simp_all add: nat_div_distrib nat_mod_distrib)
  ultimately show ?thesis
    using p assms \<open>1 \<le> nat person div 26\<close> by (simp add: tag_letters_two)
qed

lemma tagfilename_spreadsheet:
  assumes "0 \<le> person" and "person < 702"
  shows "tagfilename person = Inr (str ''Tag'' @ spreadsheet_column (nat person) @ str ''.csv'')"
  using assms by (simp add: tagfilename_def tag_letters_spreadsheet)

text \<open>
  C8. The file name for the tag with index \<open>n\<close> is \<open>Tag\<close>, the spreadsheet column of \<open>n\<close> and
  \<open>.csv\<close> for every \<open>n\<close> below 702 (\<open>tagfilename_spreadsheet\<close>), not for every \<open>n\<close>: the
  second branch of the loop makes two characters whatever the index is, and at 702, where
  the columns continue with AAA, its first character is the one after Z.
\<close>

theorem tagfilename_beyond_ZZ:
  "tagfilename 702 = Inr (str ''Tag[A.csv'')
   \<and> str ''Tag'' @ spreadsheet_column 702 @ str ''.csv'' = str ''TagAAA.csv''"
  by code_simp

lemma tag_names_loop_error:
  "tag_names_loop ul persons d = Inl e \<Longrightarrow> e = ValueError"
proof (induction persons arbitrary: d)
  case Nil
  then show ?case by simp
next
  case (Cons p ps)
  then show ?case
    by (auto simp: tagfilename_def tag_var_def tag_letters_def chr_py_def Let_def
        split: sum.splits if_splits)
qed

lemma tag_names_loop_append:
  "tag_names_loop ul (ps @ qs) d =
     (case tag_names_loop ul ps d of Inl e \<Rightarrow> Inl e | Inr d' \<Rightarrow> tag_names_loop ul qs d')"
  by (induction ps arbitrary: d) (simp_all split: sum.splits)

lemma tag_letters_too_far: "tag_letters 28965248 = Inl ValueError"
  by (simp add: tag_letters_def chr_py_def)

lemma tag_names_loop_too_far:
  "tag_names_loop ul (ps @ [28965248]) d = Inl ValueError"
proof (cases "tag_names_loop ul ps d")
  case (Inl e)
  then have "e = ValueError" by (rule tag_names_loop_error)
  with Inl show ?thesis by (simp add: tag_names_loop_append)
next
  case (Inr d')
  then show ?thesis
    by (simp add: tag_names_loop_append tagfilename_def tag_letters_too_far)
qed

lemma read_csv_files_two: "read_csv_files ul fs position 2 = read_three fs position"
proof -
  have "map int [0..<nat 2] = [0, 1]" by (simp add: upt_rec)
  moreover have "tag_names_loop ul [0, 1] Map.empty
      = Inr [str ''tag_a'' \<mapsto> str ''TagA.csv'', str ''tag_b'' \<mapsto> str ''TagB.csv'']"
    by (simp add: tagfilename_def tag_var_def tag_letters_def chr_py_def lower_py_def
        str_literals)
  ultimately show ?thesis
    by (simp add: read_csv_files_def read_three_def str_literals split: sum.splits)
qed

lemma lower_py_nonempty:
  assumes "\<forall>c. ul c \<noteq> []"
  shows "length (lower_py ul [c1, c2]) \<ge> 2"
proof -
  have "length (if 65 \<le> c \<and> c \<le> 90 then [c + 32] else if c < 128 then [c] else ul c) \<ge> 1" for c
    using assms by (simp add: Suc_leI)
  from this[of c1] this[of c2] show ?thesis
    by (simp add: lower_py_def)
qed

lemma tag_var_other:
  assumes "\<forall>c. ul c \<noteq> []" and "2 \<le> person" and "person < 28965248"
  shows "\<exists>var. tag_var ul person = Inr var \<and> var \<noteq> str ''tag_a'' \<and> var \<noteq> str ''tag_b''"
proof (cases "person \<le> 25")
  case True
  with assms(2) have "tag_letters person = Inr [nat person + 65]"
    by (simp add: tag_letters_one)
  moreover from True assms(2) have "lower_py ul [nat person + 65] = [nat person + 97]"
    by (simp add: lower_py_def)
  ultimately show ?thesis
    using assms(2) by (simp add: tag_var_def str_literals)
next
  case False
  with assms(3) have l: "tag_letters person
      = Inr [nat (person div 26) + 64, nat (person mod 26) + 65]"
    by (simp add: tag_letters_two)
  have "length (str ''tag_'' @ lower_py ul [nat (person div 26) + 64, nat (person mod 26) + 65])
      \<ge> 6"
    using lower_py_nonempty[OF assms(1)] by (simp add: str_literals)
  then have "str ''tag_'' @ lower_py ul [nat (person div 26) + 64, nat (person mod 26) + 65]
      \<notin> {str ''tag_a'', str ''tag_b''}"
    by (auto simp: str_literals)
  with l show ?thesis by (simp add: tag_var_def)
qed

lemma tagfilename_defined:
  assumes "0 \<le> person" and "person < 28965248"
  shows "\<exists>file. tagfilename person = Inr file"
proof (cases "person \<le> 25")
  case True
  with assms show ?thesis by (simp add: tagfilename_def tag_letters_one)
next
  case False
  with assms show ?thesis by (simp add: tagfilename_def tag_letters_two)
qed

lemma tag_names_loop_keeps:
  assumes "\<forall>c. ul c \<noteq> []" and "\<forall>p\<in>set ps. 2 \<le> p \<and> p < 28965248"
  shows "\<exists>d'. tag_names_loop ul ps d = Inr d'
           \<and> d' (str ''tag_a'') = d (str ''tag_a'') \<and> d' (str ''tag_b'') = d (str ''tag_b'')"
  using assms(2)
proof (induction ps arbitrary: d)
  case Nil
  then show ?case by simp
next
  case (Cons p ps)
  then have p: "2 \<le> p" "p < 28965248" by simp_all
  from tag_var_other[OF assms(1) p] obtain var where var: "tag_var ul p = Inr var"
    "var \<noteq> str ''tag_a''" "var \<noteq> str ''tag_b''" by blast
  from tagfilename_defined[of p] p obtain fname where fname: "tagfilename p = Inr fname"
    by auto
  from Cons.prems have "\<forall>p\<in>set ps. 2 \<le> p \<and> p < 28965248" by simp
  from Cons.IH[OF this, of "d(var \<mapsto> fname)"]
  obtain d' where d': "tag_names_loop ul ps (d(var \<mapsto> fname)) = Inr d'"
    and a: "d' (str ''tag_a'') = (d(var \<mapsto> fname)) (str ''tag_a'')"
    and b: "d' (str ''tag_b'') = (d(var \<mapsto> fname)) (str ''tag_b'')"
    by blast
  from var fname d' have "tag_names_loop ul (p # ps) d = Inr d'" by simp
  moreover from a var(2) have "d' (str ''tag_a'') = d (str ''tag_a'')" by simp
  moreover from b var(3) have "d' (str ''tag_b'') = d (str ''tag_b'')" by simp
  ultimately show ?case by blast
qed

lemma read_csv_files_tag_count:
  assumes "\<forall>c. ul c \<noteq> []" and "2 \<le> numtags" and "numtags \<le> 28965248"
  shows "read_csv_files ul fs position numtags = read_three fs position"
proof -
  from assms(2) have "nat numtags = 2 + (nat numtags - 2)" by simp
  then have "[0..<nat numtags] = [0..<2] @ [2..<nat numtags]"
    using upt_add_eq_append[of 0 2 "nat numtags - 2"] by simp
  moreover have "[0..<2] = [0, Suc 0]" by (simp add: upt_rec)
  ultimately have "[0..<nat numtags] = [0, 1] @ [2..<nat numtags]" by simp
  then have ps: "map int [0..<nat numtags] = [0, 1] @ map int [2..<nat numtags]" by simp
  have two: "tag_names_loop ul [0, 1] Map.empty
      = Inr [str ''tag_a'' \<mapsto> str ''TagA.csv'', str ''tag_b'' \<mapsto> str ''TagB.csv'']"
    by (simp add: tagfilename_def tag_var_def tag_letters_def chr_py_def lower_py_def
        str_literals)
  have "\<forall>p\<in>set (map int [2..<nat numtags]). 2 \<le> p \<and> p < 28965248"
    using assms(3) by auto
  from tag_names_loop_keeps[OF assms(1) this,
      of "[str ''tag_a'' \<mapsto> str ''TagA.csv'', str ''tag_b'' \<mapsto> str ''TagB.csv'']"]
  obtain d' where "tag_names_loop ul (map int [2..<nat numtags])
        [str ''tag_a'' \<mapsto> str ''TagA.csv'', str ''tag_b'' \<mapsto> str ''TagB.csv''] = Inr d'"
    and "d' (str ''tag_a'') = Some (str ''TagA.csv'')"
    and "d' (str ''tag_b'') = Some (str ''TagB.csv'')"
    by (auto simp: str_literals)
  with ps two show ?thesis
    by (simp add: read_csv_files_def read_three_def tag_names_loop_append split: sum.splits)
qed

text \<open>
  C9. With two tags the loader reads the files of tag A and tag B and the position file,
  and so it does for every tag count from 2 to 28965248 (\<open>read_csv_files_tag_count\<close>).
  With 28965249 tags it reads nothing: the loop reaches the index 28965248, whose first
  character would be the code point \<open>0x110000\<close>, and \<open>chr\<close> raises \<open>ValueError\<close>.
\<close>

theorem read_csv_files_too_many_tags:
  "read_csv_files ul fs position 2 = read_three fs position
   \<and> read_csv_files ul fs position 28965249 = Inl ValueError"
proof -
  have "nat 28965249 = Suc 28965248" by simp
  then have "map int [0..<nat 28965249] = map int [0..<28965248] @ [28965248]"
    by (simp only: upt_Suc) simp
  then have "tag_names_loop ul (map int [0..<nat 28965249]) Map.empty = Inl ValueError"
    by (simp only: tag_names_loop_too_far)
  then have "read_csv_files ul fs position 28965249 = Inl ValueError"
    by (simp add: read_csv_files_def)
  with read_csv_files_two show ?thesis by blast
qed

section \<open>Properties of the analysis\<close>

text \<open>\<open>ilog2\<close> is the integer part of the binary logarithm.\<close>

lemma bitlen_pos: "0 < a \<Longrightarrow> 1 \<le> bitlen a"
  using compute_bitlen[of a] bitlen_nonneg[of "a div 2"] by simp

lemma bitlen_bounds_rat:
  assumes "0 < a"
  shows "power_int 2 (bitlen a - 1) \<le> (of_int a :: rat)" and "(of_int a :: rat) < power_int 2 (bitlen a)"
proof -
  from bitlen_bounds[OF assms] have lo: "2 ^ nat (bitlen a - 1) \<le> a" and hi: "a < 2 ^ nat (bitlen a)"
    by simp_all
  from bitlen_pos[OF assms] have e: "int (nat (bitlen a - 1)) = bitlen a - 1"
    "int (nat (bitlen a)) = bitlen a" by simp_all
  from lo have "(of_int (2 ^ nat (bitlen a - 1)) :: rat) \<le> of_int a"
    by (simp only: of_int_le_iff)
  then have "(2::rat) ^ nat (bitlen a - 1) \<le> of_int a" by simp
  then show "power_int 2 (bitlen a - 1) \<le> (of_int a :: rat)"
    using power_int_of_nat[of "2::rat" "nat (bitlen a - 1)"] e by simp
  from hi have "(of_int a :: rat) < of_int (2 ^ nat (bitlen a))"
    by (simp only: of_int_less_iff)
  then have "(of_int a :: rat) < 2 ^ nat (bitlen a)" by simp
  then show "(of_int a :: rat) < power_int 2 (bitlen a)"
    using power_int_of_nat[of "2::rat" "nat (bitlen a)"] e by simp
qed

lemma ilog2_bounds:
  assumes "0 < q"
  shows "power_int 2 (ilog2 q) \<le> q \<and> q < power_int 2 (ilog2 q + 1)"
proof -
  obtain a b where ab: "quotient_of q = (a, b)" by (cases "quotient_of q")
  then have b: "0 < b" by (rule quotient_of_denom_pos)
  from ab have q: "q = of_int a / of_int b" by (rule quotient_of_div)
  with assms b have a: "0 < a" by (simp add: zero_less_divide_iff)
  let ?e = "bitlen a - bitlen b"
  have pa: "(0::rat) < power_int 2 (bitlen a - 1)" and pb: "(0::rat) < power_int 2 (bitlen b - 1)"
    by (simp_all add: zero_less_power_int)
  have "power_int 2 (bitlen a - 1) / power_int 2 (bitlen b) < (of_int a :: rat) / of_int b"
    using bitlen_bounds_rat[OF a] bitlen_bounds_rat[OF b] pa b
    by (intro frac_less2) simp_all
  then have lo: "power_int 2 (?e - 1) < q"
    using power_int_diff[of "2::rat" "bitlen a - 1" "bitlen b"] q
    by (simp add: algebra_simps)
  have "(of_int a :: rat) / of_int b < power_int 2 (bitlen a) / power_int 2 (bitlen b - 1)"
    using bitlen_bounds_rat[OF a] bitlen_bounds_rat[OF b] pb a
    by (intro frac_less) simp_all
  then have hi: "q < power_int 2 (?e + 1)"
    using power_int_diff[of "2::rat" "bitlen a" "bitlen b - 1"] q
    by (simp add: algebra_simps)
  show ?thesis
  proof (cases "power_int 2 ?e \<le> q")
    case True
    with ab hi show ?thesis by (simp add: ilog2_def)
  next
    case False
    with ab lo show ?thesis by (simp add: ilog2_def)
  qed
qed

lemma round_half_even_of_int: "round_half_even (of_int k) = k"
  by (simp add: round_half_even_def)

lemma ilog2_less:
  assumes "0 < q" and "q < power_int 2 n"
  shows "ilog2 q < n"
proof (rule ccontr)
  assume "\<not> ilog2 q < n"
  then have "power_int (2::rat) n \<le> power_int 2 (ilog2 q)"
    by (intro power_int_increasing) simp_all
  with ilog2_bounds[OF assms(1)] assms(2) show False by simp
qed

lemma rnd_finite:
  assumes "0 < q" and "q < power_int 2 1023"
  shows "rnd q = Num (of_int (round_half_even (q / power_int 2 (max (ilog2 q) (- 1022) - 52)))
                       * power_int 2 (max (ilog2 q) (- 1022) - 52))"
proof -
  from ilog2_less[OF assms] have "ilog2 q < 1023" .
  then have "\<not> 1023 < max (ilog2 q) (- 1022)" and "max (ilog2 q) (- 1022) \<noteq> 1023"
    by simp_all
  with assms(1) show ?thesis by (simp add: rnd_def Let_def del: max_less_iff_conj)
qed

lemma rnd_exact_int:
  assumes "0 \<le> n" and "n < 2 ^ 53"
  shows "rnd (of_int n) = Num (of_int n)"
proof (cases "n = 0")
  case True
  then show ?thesis by (simp add: rnd_def)
next
  case False
  with assms have n: "0 < n" by simp
  let ?q = "of_int n :: rat"
  from n have q: "0 < ?q" by simp
  have "?q < 2 ^ 53" using assms(2) by (metis of_int_less_iff of_int_numeral of_int_power)
  then have q53: "?q < power_int 2 53" by simp
  from ilog2_less[OF q q53] have e53: "ilog2 ?q < 53" .
  from ilog2_bounds[OF q] have "power_int 2 (ilog2 ?q) \<le> ?q" by simp
  moreover have "?q \<ge> 1" using n by simp
  have e0: "0 \<le> ilog2 ?q"
  proof (rule ccontr)
    assume "\<not> 0 \<le> ilog2 ?q"
    then have "ilog2 ?q + 1 \<le> 0" by simp
    then have "power_int (2::rat) (ilog2 ?q + 1) \<le> power_int 2 0"
      by (intro power_int_increasing) simp_all
    with ilog2_bounds[OF q] \<open>?q \<ge> 1\<close> show False by simp
  qed
  let ?e = "max (ilog2 ?q) (- 1022)"
  from e0 have e: "?e = ilog2 ?q" by simp
  define k where "k = nat (52 - ilog2 ?q)"
  from e53 have k: "ilog2 ?q - 52 = - int k" by (simp add: k_def)
  have ulp: "power_int (2::rat) (?e - 52) = 1 / 2 ^ k"
    unfolding e k by (simp add: power_int_minus field_simps)
  then have "?q / power_int 2 (?e - 52) = of_int (n * 2 ^ k)" by simp
  then have "round_half_even (?q / power_int 2 (?e - 52)) = n * 2 ^ k"
    by (simp only: round_half_even_of_int)
  moreover have "?q < power_int 2 1023"
    using q53 power_int_increasing[of 53 1023 "2::rat"] by simp
  ultimately show ?thesis
    using rnd_finite[OF q] ulp by simp
qed

lemma float_of_int_defined:
  assumes "0 \<le> n" and "n < 2 ^ 1023"
  shows "float_of_int n = Inr (rnd (of_int n))"
proof (cases "n = 0")
  case True
  then show ?thesis by (simp add: float_of_int_def rnd_def)
next
  case False
  with assms have q: "0 < (of_int n :: rat)" by simp
  have "(of_int n :: rat) < 2 ^ 1023"
    using assms(2) by (metis of_int_less_iff of_int_numeral of_int_power)
  then have "(of_int n :: rat) < power_int 2 1023" by simp
  from rnd_finite[OF q this] show ?thesis by (simp add: float_of_int_def)
qed

lemma time_step_value: "time_step = Num (3602879701896397 / 36028797018963968)"
  by code_simp

lemma int_times_float_count:
  assumes "n < 2 ^ 1023"
  shows "int_times_float (int n) time_step = Inr (fmul (rnd (of_nat n)) time_step)"
proof -
  from assms have "int n < 2 ^ 1023"
    by (metis of_nat_less_iff of_nat_numeral of_nat_power)
  then have "float_of_int (int n) = Inr (rnd (of_int (int n)))"
    by (intro float_of_int_defined) simp_all
  then show ?thesis by (simp add: int_times_float_def)
qed

lemma float_of_int_count:
  "float_of_int (int n) = Inr f \<Longrightarrow> f = rnd (of_nat n)"
  by (auto simp: float_of_int_def split: float64.splits)

lemma tag_analysis_result:
  assumes "read_csv_files ul fs position numtags
      = Inr (TagTable tag_a_df, TagTable tag_b_df, PosTable position_df)"
    and "tag_analysis libs ul fs tag_a tag_b position numtags = (out, Inr res)"
  shows "total_contact_duration res
      = fmul (rnd (of_nat (min (length (contact_within_1_5m tag_a_df))
                               (length (contact_within_1_5m tag_b_df))))) time_step
    \<and> last out = TotalContactDuration (total_contact_duration res)"
  using assms(2) assms(1)
  by (auto simp: tag_analysis_def check_tag_connections_def Let_def int_times_float_def
      split: prod.splits sum.splits option.splits dest!: float_of_int_count)

lemma tag_analysis_run:
  assumes "read_csv_files ul fs position numtags
      = Inr (TagTable tag_a_df, TagTable tag_b_df, PosTable position_df)"
    and "correct_tag_ids position_df = (out2, Inr position_df_corrected)"
    and "tag_a_df \<noteq> []" and "tag_b_df \<noteq> []"
    and "min (length (contact_within_1_5m tag_a_df)) (length (contact_within_1_5m tag_b_df))
      < 2 ^ 1023"
  shows "tag_analysis libs ul fs tag_a tag_b position numtags =
     ([ContactIDs (unique (map ContactID tag_a_df)) (unique (map ContactID tag_b_df))]
        @ out2 @ fst (verify_distances libs tag_a_df tag_b_df)
        @ [TotalContactDuration
             (fmul (rnd (of_nat (min (length (contact_within_1_5m tag_a_df))
                                     (length (contact_within_1_5m tag_b_df))))) time_step)],
      Inr \<lparr>contact_within_1_5m_a_pos =
             merge_on_time Time_s pos_Time_s (contact_within_1_5m tag_a_df)
               (filter (\<lambda>r. TagID r = str ''A'') position_df_corrected),
           contact_within_1_5m_b_pos =
             merge_on_time Time_s pos_Time_s (contact_within_1_5m tag_b_df)
               (filter (\<lambda>r. TagID r = str ''B'') position_df_corrected),
           total_contact_duration =
             fmul (rnd (of_nat (min (length (contact_within_1_5m tag_a_df))
                                    (length (contact_within_1_5m tag_b_df))))) time_step,
           shown = plot_positions position_df_corrected
                     (merge_on_time Time_s pos_Time_s (contact_within_1_5m tag_a_df)
                        (filter (\<lambda>r. TagID r = str ''A'') position_df_corrected))\<rparr>)"
proof -
  from mismatched_distances_rows[OF assms(3,4)] obtain out3
    where v: "verify_distances libs tag_a_df tag_b_df = (out3, Inr ())"
    by (simp add: verify_distances_rows)
  from assms(3,4) have m: "merge_raises libs tag_a_df pa = None"
    "merge_raises libs tag_b_df pb = None" for pa pb
    by (simp_all add: merge_raises_def object_columns_def)
  from assms(1,2) v m int_times_float_count[OF assms(5)] show ?thesis
    by (simp add: tag_analysis_def check_tag_connections_def Let_def)
qed

lemma duration_exact_count:
  assumes "n < 2 ^ 53"
  shows "fmul (rnd (of_nat n)) time_step = rnd (of_nat n * (3602879701896397 / 36028797018963968))"
proof -
  from assms have "int n < 2 ^ 53"
    by (metis of_nat_less_iff of_nat_numeral of_nat_power)
  then have "rnd (of_int (int n)) = Num (of_int (int n))"
    by (intro rnd_exact_int) simp_all
  then show ?thesis by (simp add: time_step_value)
qed

lemma duration_forty: "rnd (40 * (3602879701896397 / 36028797018963968)) = Num 4"
  by code_simp

text \<open>
  The product is rounded: three readings give the double next above three tenths of a
  second.
\<close>

lemma duration_three:
  "rnd (3 * (3602879701896397 / 36028797018963968))
     = Num (1351079888211149 / 4503599627370496)
   \<and> (3 / 10 :: rat) < 1351079888211149 / 4503599627370496"
  by code_simp

lemma read_csv_files_session:
  "read_csv_files ul (session_files a b p) (str ''position.csv'') 2
     = Inr (TagTable a, TagTable b, PosTable p)"
  by (simp add: read_csv_files_two read_three_def session_files_def str_def)

text \<open>
  C4. Whenever \<open>tag_analysis\<close> returns, the total contact duration it has computed and
  printed is the product, in double precision, of the smaller of the two counts of
  readings at a distance of at most 1.5 and the sample interval 0.1: the double nearest to
  the count times the double 0.1. For the counts 50 and 40 it is 4.0. It does return when
  the loader has read the three tables, both tag tables have rows and the corrector has
  returned.
\<close>

theorem total_contact_duration_min_count:
  assumes "read_csv_files unicode_lower read_csv position numtags
      = Inr (TagTable tag_a_df, TagTable tag_b_df, PosTable position_df)"
    and "count_a = length (filter (\<lambda>r. fle (Distance_m r) (Num (3 / 2))) tag_a_df)"
    and "count_b = length (filter (\<lambda>r. fle (Distance_m r) (Num (3 / 2))) tag_b_df)"
  shows "(\<forall>out res.
            tag_analysis libs unicode_lower read_csv tag_a tag_b position numtags
              = (out, Inr res) \<longrightarrow>
            last out = TotalContactDuration (total_contact_duration res)
            \<and> total_contact_duration res = fmul (rnd (of_nat (min count_a count_b))) time_step
            \<and> (min count_a count_b < 2 ^ 53 \<longrightarrow>
                 total_contact_duration res
                   = rnd (of_nat (min count_a count_b)
                          * (3602879701896397 / 36028797018963968)))
            \<and> (count_a = 50 \<and> count_b = 40 \<longrightarrow> total_contact_duration res = Num 4))
      \<and> (tag_a_df \<noteq> [] \<and> tag_b_df \<noteq> []
           \<and> snd (correct_tag_ids position_df) = Inr position_df_corrected
           \<and> min count_a count_b < 2 ^ 1023 \<longrightarrow>
          (\<exists>out res.
             tag_analysis libs unicode_lower read_csv tag_a tag_b position numtags
               = (out, Inr res)))"
proof (intro conjI allI impI)
  fix out res
  assume ret: "tag_analysis libs unicode_lower read_csv tag_a tag_b position numtags
      = (out, Inr res)"
  from assms(2,3) have counts: "count_a = length (contact_within_1_5m tag_a_df)"
    "count_b = length (contact_within_1_5m tag_b_df)"
    by (simp_all add: contact_within_1_5m_def)
  from tag_analysis_result[OF assms(1) ret] counts
  show "last out = TotalContactDuration (total_contact_duration res)"
    and d: "total_contact_duration res = fmul (rnd (of_nat (min count_a count_b))) time_step"
    by simp_all
  show exact: "total_contact_duration res
      = rnd (of_nat (min count_a count_b) * (3602879701896397 / 36028797018963968))"
    if "min count_a count_b < 2 ^ 53"
    using that d by (simp add: duration_exact_count)
  show "total_contact_duration res = Num 4" if "count_a = 50 \<and> count_b = 40"
  proof -
    from that have m: "min count_a count_b = 40" by simp
    then have "min count_a count_b < 2 ^ 53" by simp
    from exact[OF this] m duration_forty show ?thesis by simp
  qed
next
  assume a: "tag_a_df \<noteq> [] \<and> tag_b_df \<noteq> []
      \<and> snd (correct_tag_ids position_df) = Inr position_df_corrected
      \<and> min count_a count_b < 2 ^ 1023"
  then obtain out2 where c: "correct_tag_ids position_df = (out2, Inr position_df_corrected)"
    by (cases "correct_tag_ids position_df") simp
  from a have rows: "tag_a_df \<noteq> []" "tag_b_df \<noteq> []" by simp_all
  from a assms(2,3) have small:
    "min (length (contact_within_1_5m tag_a_df)) (length (contact_within_1_5m tag_b_df))
      < 2 ^ 1023"
    by (simp add: contact_within_1_5m_def)
  from tag_analysis_run[OF assms(1) c rows small, of libs tag_a tag_b]
  show "\<exists>out res.
      tag_analysis libs unicode_lower read_csv tag_a tag_b position numtags = (out, Inr res)"
    by blast
qed

theorem total_contact_duration_min_count_witness:
  "read_csv_files keep_case (session_files fifty_close forty_close two_tags_two_times)
       (str ''position.csv'') 2
     = Inr (TagTable fifty_close, TagTable forty_close, PosTable two_tags_two_times)
   \<and> (50::nat) = length (filter (\<lambda>r. fle (Distance_m r) (Num (3 / 2))) fifty_close)
   \<and> (40::nat) = length (filter (\<lambda>r. fle (Distance_m r) (Num (3 / 2))) forty_close)
   \<and> fifty_close \<noteq> [] \<and> forty_close \<noteq> []
   \<and> snd (correct_tag_ids two_tags_two_times) = Inr two_tags_two_times
   \<and> min (50::nat) 40 < 2 ^ 1023 \<and> min (50::nat) 40 < 2 ^ 53
   \<and> map_sum id total_contact_duration
        (snd (tag_analysis strict_libraries keep_case
                (session_files fifty_close forty_close two_tags_two_times)
                (str ''TagA.csv'') (str ''TagB.csv'') (str ''position.csv'') 2))
       = Inr (Num 4)"
proof -
  have 1: "read_csv_files keep_case (session_files fifty_close forty_close two_tags_two_times)
       (str ''position.csv'') 2
     = Inr (TagTable fifty_close, TagTable forty_close, PosTable two_tags_two_times)"
    by (rule read_csv_files_session)
  have 2: "snd (correct_tag_ids two_tags_two_times) = Inr two_tags_two_times"
    by code_simp
  have 3: "(50::nat) = length (filter (\<lambda>r. fle (Distance_m r) (Num (3 / 2))) fifty_close)"
    by code_simp
  have 4: "(40::nat) = length (filter (\<lambda>r. fle (Distance_m r) (Num (3 / 2))) forty_close)"
    by code_simp
  have 5: "min (50::nat) 40 < 2 ^ 1023" "min (50::nat) 40 < 2 ^ 53" by simp_all
  have 6: "fifty_close \<noteq> []" "forty_close \<noteq> []"
    by (simp_all add: fifty_close_def forty_close_def)
  note t = total_contact_duration_min_count[OF 1 3 4, of strict_libraries
      "str ''TagA.csv''" "str ''TagB.csv''" two_tags_two_times]
  from t 2 5 6 obtain out res where r: "tag_analysis strict_libraries keep_case
      (session_files fifty_close forty_close two_tags_two_times)
      (str ''TagA.csv'') (str ''TagB.csv'') (str ''position.csv'') 2 = (out, Inr res)"
    by blast
  with t have "total_contact_duration res = Num 4" by blast
  with r have "map_sum id total_contact_duration
        (snd (tag_analysis strict_libraries keep_case
                (session_files fifty_close forty_close two_tags_two_times)
                (str ''TagA.csv'') (str ''TagB.csv'') (str ''position.csv'') 2))
       = Inr (Num 4)"
    by simp
  with 1 2 3 4 5 6 show ?thesis by blast
qed

text \<open>
  C7. Tag A and tag B tables that have rows and share no timestamp give no mismatch and no
  uninterrupted session. In \<open>tag_analysis\<close> the joins are those of each tag's close readings
  with the position rows of that tag: when the loader and the corrector have returned and
  both tag tables have rows, the analysis completes, prints nothing beyond the lines of
  its steps, and a join whose two sides share no timestamp is empty.
\<close>

theorem no_shared_timestamps:
  "(tag_a_df \<noteq> [] \<and> tag_b_df \<noteq> []
      \<and> set (map Time_s tag_a_df) \<inter> set (map Time_s tag_b_df) = {} \<longrightarrow>
      verify_distances libs tag_a_df tag_b_df
        = ([AllDistancesMatch, UninterruptedSessions 0], Inr ()))
   \<and> (read_csv_files unicode_lower read_csv position numtags
         = Inr (TagTable tag_a_df, TagTable tag_b_df, PosTable position_df)
       \<and> correct_tag_ids position_df = (out2, Inr position_df_corrected)
       \<and> tag_a_df \<noteq> [] \<and> tag_b_df \<noteq> []
       \<and> min (length (contact_within_1_5m tag_a_df)) (length (contact_within_1_5m tag_b_df))
           < 2 ^ 1023 \<longrightarrow>
      (\<exists>duration res.
          tag_analysis libs unicode_lower read_csv tag_a tag_b position numtags
            = ([ContactIDs (unique (map ContactID tag_a_df)) (unique (map ContactID tag_b_df))]
                 @ out2 @ fst (verify_distances libs tag_a_df tag_b_df)
                 @ [TotalContactDuration duration],
               Inr res)
          \<and> (set (map Time_s (contact_within_1_5m tag_a_df))
                \<inter> set (map pos_Time_s (filter (\<lambda>r. TagID r = str ''A'') position_df_corrected))
                = {} \<longrightarrow>
              contact_within_1_5m_a_pos res = [] \<and> contact_points (shown res) = [])
          \<and> (set (map Time_s (contact_within_1_5m tag_b_df))
                \<inter> set (map pos_Time_s (filter (\<lambda>r. TagID r = str ''B'') position_df_corrected))
                = {} \<longrightarrow>
              contact_within_1_5m_b_pos res = [])))"
proof (intro conjI impI)
  assume a: "tag_a_df \<noteq> [] \<and> tag_b_df \<noteq> []
      \<and> set (map Time_s tag_a_df) \<inter> set (map Time_s tag_b_df) = {}"
  then have e: "merge_on_time Time_s Time_s tag_a_df tag_b_df = []"
    by (simp add: merge_on_time_disjoint)
  from a have "mismatched_distances libs tag_a_df tag_b_df = Inr []"
    by (simp add: mismatched_distances_rows e)
  from verify_distances_rows[OF this] e
  show "verify_distances libs tag_a_df tag_b_df
      = ([AllDistancesMatch, UninterruptedSessions 0], Inr ())"
    by (simp add: within_1_5m_def uninterrupted_periods_def)
next
  assume a: "read_csv_files unicode_lower read_csv position numtags
         = Inr (TagTable tag_a_df, TagTable tag_b_df, PosTable position_df)
       \<and> correct_tag_ids position_df = (out2, Inr position_df_corrected)
       \<and> tag_a_df \<noteq> [] \<and> tag_b_df \<noteq> []
       \<and> min (length (contact_within_1_5m tag_a_df)) (length (contact_within_1_5m tag_b_df))
           < 2 ^ 1023"
  then have r: "read_csv_files unicode_lower read_csv position numtags
         = Inr (TagTable tag_a_df, TagTable tag_b_df, PosTable position_df)"
    and c: "correct_tag_ids position_df = (out2, Inr position_df_corrected)"
    and rows: "tag_a_df \<noteq> []" "tag_b_df \<noteq> []"
    and m: "min (length (contact_within_1_5m tag_a_df)) (length (contact_within_1_5m tag_b_df))
           < 2 ^ 1023"
    by blast+
  note run = tag_analysis_run[OF r c rows m, of libs tag_a tag_b]
  show "\<exists>duration res.
          tag_analysis libs unicode_lower read_csv tag_a tag_b position numtags
            = ([ContactIDs (unique (map ContactID tag_a_df)) (unique (map ContactID tag_b_df))]
                 @ out2 @ fst (verify_distances libs tag_a_df tag_b_df)
                 @ [TotalContactDuration duration],
               Inr res)
          \<and> (set (map Time_s (contact_within_1_5m tag_a_df))
                \<inter> set (map pos_Time_s (filter (\<lambda>r. TagID r = str ''A'') position_df_corrected))
                = {} \<longrightarrow>
              contact_within_1_5m_a_pos res = [] \<and> contact_points (shown res) = [])
          \<and> (set (map Time_s (contact_within_1_5m tag_b_df))
                \<inter> set (map pos_Time_s (filter (\<lambda>r. TagID r = str ''B'') position_df_corrected))
                = {} \<longrightarrow>
              contact_within_1_5m_b_pos res = [])"
    unfolding run
    by (intro exI conjI impI, rule refl)
      (simp_all add: merge_on_time_disjoint plot_positions_def)
qed

theorem no_shared_timestamps_witness:
  "early_reading_a \<noteq> [] \<and> later_reading_b \<noteq> []
   \<and> set (map Time_s early_reading_a) \<inter> set (map Time_s later_reading_b) = {}
   \<and> verify_distances strict_libraries early_reading_a later_reading_b
       = ([AllDistancesMatch, UninterruptedSessions 0], Inr ())
   \<and> read_csv_files keep_case (session_files early_reading_a later_reading_b late_positions)
         (str ''position.csv'') 2
       = Inr (TagTable early_reading_a, TagTable later_reading_b, PosTable late_positions)
   \<and> correct_tag_ids late_positions = ([], Inr late_positions)
   \<and> min (length (contact_within_1_5m early_reading_a))
         (length (contact_within_1_5m later_reading_b)) < 2 ^ 1023
   \<and> set (map Time_s (contact_within_1_5m early_reading_a))
         \<inter> set (map pos_Time_s (filter (\<lambda>r. TagID r = str ''A'') late_positions)) = {}
   \<and> set (map Time_s (contact_within_1_5m later_reading_b))
         \<inter> set (map pos_Time_s (filter (\<lambda>r. TagID r = str ''B'') late_positions)) = {}
   \<and> map_sum id contact_within_1_5m_a_pos
        (snd (tag_analysis strict_libraries keep_case
                (session_files early_reading_a later_reading_b late_positions)
                (str ''TagA.csv'') (str ''TagB.csv'') (str ''position.csv'') 2))
       = Inr []
   \<and> map_sum id contact_within_1_5m_b_pos
        (snd (tag_analysis strict_libraries keep_case
                (session_files early_reading_a later_reading_b late_positions)
                (str ''TagA.csv'') (str ''TagB.csv'') (str ''position.csv'') 2))
       = Inr []"
proof -
  have 0: "early_reading_a \<noteq> []" "later_reading_b \<noteq> []"
    by (simp_all add: early_reading_a_def later_reading_b_def)
  have 1: "set (map Time_s early_reading_a) \<inter> set (map Time_s later_reading_b) = {}"
    by (simp add: early_reading_a_def later_reading_b_def reading_def)
  have 2: "read_csv_files keep_case
         (session_files early_reading_a later_reading_b late_positions)
         (str ''position.csv'') 2
       = Inr (TagTable early_reading_a, TagTable later_reading_b, PosTable late_positions)"
    by (rule read_csv_files_session)
  have 3: "correct_tag_ids late_positions = ([], Inr late_positions)"
    by code_simp
  have 4: "min (length (contact_within_1_5m early_reading_a))
         (length (contact_within_1_5m later_reading_b)) < 2 ^ 1023"
    by (simp add: early_reading_a_def later_reading_b_def contact_within_1_5m_def)
  have 5: "set (map Time_s (contact_within_1_5m early_reading_a))
         \<inter> set (map pos_Time_s (filter (\<lambda>r. TagID r = str ''A'') late_positions)) = {}"
    by (simp add: early_reading_a_def late_positions_def contact_within_1_5m_def
        reading_def pos_def str_def)
  have 6: "set (map Time_s (contact_within_1_5m later_reading_b))
         \<inter> set (map pos_Time_s (filter (\<lambda>r. TagID r = str ''B'') late_positions)) = {}"
    by (simp add: later_reading_b_def late_positions_def contact_within_1_5m_def
        reading_def pos_def str_def)
  note t = no_shared_timestamps[of early_reading_a later_reading_b strict_libraries keep_case
      "session_files early_reading_a later_reading_b late_positions" "str ''position.csv''" 2
      late_positions "[]" late_positions "str ''TagA.csv''" "str ''TagB.csv''"]
  from t 0 1 have 7: "verify_distances strict_libraries early_reading_a later_reading_b
       = ([AllDistancesMatch, UninterruptedSessions 0], Inr ())"
    by blast
  from t 0 2 3 4 5 6 have 8: "map_sum id contact_within_1_5m_a_pos
        (snd (tag_analysis strict_libraries keep_case
                (session_files early_reading_a later_reading_b late_positions)
                (str ''TagA.csv'') (str ''TagB.csv'') (str ''position.csv'') 2))
       = Inr []
   \<and> map_sum id contact_within_1_5m_b_pos
        (snd (tag_analysis strict_libraries keep_case
                (session_files early_reading_a later_reading_b late_positions)
                (str ''TagA.csv'') (str ''TagB.csv'') (str ''position.csv'') 2))
       = Inr []"
    by auto
  from 0 1 2 3 4 5 6 7 8 show ?thesis by blast
qed

text \<open>
  That tag A and tag B share no timestamp does not make the joins of C7 empty: they pair
  the readings of a tag with its positions, not with the readings of the other tag.
\<close>

theorem joins_with_positions_not_empty:
  "set (map Time_s early_reading_a) \<inter> set (map Time_s later_reading_b) = {}
   \<and> map_sum id contact_within_1_5m_a_pos
        (snd (tag_analysis strict_libraries keep_case
                (session_files early_reading_a later_reading_b two_tags_two_times)
                (str ''TagA.csv'') (str ''TagB.csv'') (str ''position.csv'') 2))
       = Inr [(reading 0 ''B'' 1, pos 0 ''A'')]
   \<and> map_sum id contact_within_1_5m_b_pos
        (snd (tag_analysis strict_libraries keep_case
                (session_files early_reading_a later_reading_b two_tags_two_times)
                (str ''TagA.csv'') (str ''TagB.csv'') (str ''position.csv'') 2))
       = Inr [(reading (1 / 10) ''A'' 1, pos (1 / 10) ''B'')]"
proof -
  have 0: "early_reading_a \<noteq> []" "later_reading_b \<noteq> []"
    by (simp_all add: early_reading_a_def later_reading_b_def)
  have 1: "set (map Time_s early_reading_a) \<inter> set (map Time_s later_reading_b) = {}"
    by (simp add: early_reading_a_def later_reading_b_def reading_def)
  have 2: "correct_tag_ids two_tags_two_times = ([], Inr two_tags_two_times)"
    by code_simp
  have 3: "min (length (contact_within_1_5m early_reading_a))
         (length (contact_within_1_5m later_reading_b)) < 2 ^ 1023"
    by (simp add: early_reading_a_def later_reading_b_def contact_within_1_5m_def)
  have 4: "merge_on_time Time_s pos_Time_s (contact_within_1_5m early_reading_a)
         (filter (\<lambda>r. TagID r = str ''A'') two_tags_two_times)
       = [(reading 0 ''B'' 1, pos 0 ''A'')]"
    by code_simp
  have 5: "merge_on_time Time_s pos_Time_s (contact_within_1_5m later_reading_b)
         (filter (\<lambda>r. TagID r = str ''B'') two_tags_two_times)
       = [(reading (1 / 10) ''A'' 1, pos (1 / 10) ''B'')]"
    by code_simp
  from tag_analysis_run[OF read_csv_files_session 2 0 3, of strict_libraries keep_case
      "str ''TagA.csv''" "str ''TagB.csv''"] 1 4 5
  show ?thesis by simp
qed

text \<open>
  With a tag B file that has no data rows the analysis stops at line 118: the contact
  identifiers and the corrector's lines are printed, and \<open>np.isclose\<close> raises \<open>TypeError\<close>.
\<close>

lemma tag_analysis_no_rows:
  assumes "read_csv_files ul fs position numtags
      = Inr (TagTable tag_a_df, TagTable [], PosTable position_df)"
    and "correct_tag_ids position_df = (out2, Inr position_df_corrected)"
  shows "tag_analysis libs ul fs tag_a tag_b position numtags
      = ([ContactIDs (unique (map ContactID tag_a_df)) []] @ out2, Inl TypeError)"
  using assms
  by (simp add: tag_analysis_def check_tag_connections_def verify_distances_no_rows)

end
